theory Spec2Isabelle
  imports Complex_Main "HOL-Library.AList"
begin

section \<open>Python values\<close>

text \<open>
  The functions of \<^verbatim>\<open>lib/munin_vt.py\<close> work on what \<^verbatim>\<open>json.loads\<close> returns and on
  dictionaries they build themselves. A value is \<^verbatim>\<open>None\<close>, a boolean, an integer, a
  float, a string, a list or a dictionary. A float is finite, infinite or not a
  number; the finite floats are taken among the reals, so that every double is a
  value, and what depends on the rounding of doubles is a parameter of the model
  (below). A dictionary is an association list in insertion order; its keys are the
  hashable scalars (a JSON object has string keys only, the dictionary
  \<^verbatim>\<open>vendor_results\<close> is keyed by whatever the vendor loop iterates over). \<^verbatim>\<open>True\<close>,
  \<^verbatim>\<open>1\<close> and \<^verbatim>\<open>1.0\<close> are the same dictionary key in Python, so a key of integral value
  is an integer. \<^verbatim>\<open>json.loads\<close> builds every \<^verbatim>\<open>NaN\<close> as one and the same object, which
  is found in a list that holds it. Characters are HOL characters.
\<close>

datatype pyfloat = Fin real | PosInf | NegInf | NaN

datatype key = KNone | KNum int | KStr string | KFloat pyfloat

datatype pyval =
    PNone
  | PBool bool
  | PInt int
  | PFloat pyfloat
  | PStr string
  | PList "pyval list"
  | PDict "(key \<times> pyval) list"

datatype error =
    KeyError | TypeError | IndexError | AttributeError | ValueError | NameError | LibError

text \<open>Sequencing of expressions that may raise: the first exception wins.\<close>

definition bindE :: "error + 'a \<Rightarrow> ('a \<Rightarrow> error + 'b) \<Rightarrow> error + 'b" where
  "bindE m f = (case m of Inl e \<Rightarrow> Inl e | Inr v \<Rightarrow> f v)"

fun mapE :: "('a \<Rightarrow> error + 'b) \<Rightarrow> 'a list \<Rightarrow> error + 'b list" where
  "mapE f [] = Inr []"
| "mapE f (x # xs) = bindE (f x) (\<lambda>y. bindE (mapE f xs) (\<lambda>ys. Inr (y # ys)))"

text \<open>\<^verbatim>\<open>hash(v)\<close>: lists and dictionaries are unhashable.\<close>

fun float_key :: "pyfloat \<Rightarrow> key" where
  "float_key (Fin x) = (if x = real_of_int \<lfloor>x\<rfloor> then KNum \<lfloor>x\<rfloor> else KFloat (Fin x))"
| "float_key f = KFloat f"

fun to_key :: "pyval \<Rightarrow> key option" where
  "to_key PNone = Some KNone"
| "to_key (PBool b) = Some (KNum (if b then 1 else 0))"
| "to_key (PInt n) = Some (KNum n)"
| "to_key (PFloat f) = Some (float_key f)"
| "to_key (PStr s) = Some (KStr s)"
| "to_key (PList xs) = None"
| "to_key (PDict kvs) = None"

fun key_val :: "key \<Rightarrow> pyval" where
  "key_val KNone = PNone"
| "key_val (KNum n) = PInt n"
| "key_val (KStr s) = PStr s"
| "key_val (KFloat f) = PFloat f"

text \<open>The value of a boolean or an integer.\<close>

fun num_of :: "pyval \<Rightarrow> int option" where
  "num_of (PBool b) = Some (if b then 1 else 0)"
| "num_of (PInt n) = Some n"
| "num_of v = None"

text \<open>\<^verbatim>\<open>xs[i]\<close> on a sequence: a negative index counts from the end.\<close>

definition seq_index :: "'a list \<Rightarrow> int \<Rightarrow> error + 'a" where
  "seq_index xs i =
     (if 0 \<le> i \<and> i < int (length xs) then Inr (xs ! nat i)
      else if i < 0 \<and> - i \<le> int (length xs) then Inr (xs ! nat (int (length xs) + i))
      else Inl IndexError)"

text \<open>\<^verbatim>\<open>c[k]\<close> for a hashable \<open>k\<close>.\<close>

fun py_getitem :: "pyval \<Rightarrow> key \<Rightarrow> error + pyval" where
  "py_getitem (PDict kvs) k = (case map_of kvs k of None \<Rightarrow> Inl KeyError | Some v \<Rightarrow> Inr v)"
| "py_getitem (PList xs) (KNum i) = seq_index xs i"
| "py_getitem (PStr s) (KNum i) =
     (case seq_index s i of Inl e \<Rightarrow> Inl e | Inr c \<Rightarrow> Inr (PStr [c]))"
| "py_getitem c k = Inl TypeError"

fun is_substr :: "string \<Rightarrow> string \<Rightarrow> bool" where
  "is_substr t [] = (t = [])"
| "is_substr t (c # cs) = (take (length t) (c # cs) = t \<or> is_substr t cs)"

text \<open>
  \<^verbatim>\<open>k in c\<close> for a hashable \<open>k\<close>: key membership in a dictionary, equality with an
  element of a list (a scalar equals only a scalar of the same key), substring in a
  string.
\<close>

fun py_contains :: "key \<Rightarrow> pyval \<Rightarrow> error + bool" where
  "py_contains k (PDict kvs) = Inr (k \<in> set (map fst kvs))"
| "py_contains k (PList xs) = Inr (Some k \<in> set (map to_key xs))"
| "py_contains (KStr t) (PStr s) = Inr (is_substr t s)"
| "py_contains k c = Inl TypeError"

fun py_iter :: "pyval \<Rightarrow> error + pyval list" where
  "py_iter (PList xs) = Inr xs"
| "py_iter (PStr s) = Inr (map (\<lambda>c. PStr [c]) s)"
| "py_iter (PDict kvs) = Inr (map (\<lambda>p. key_val (fst p)) kvs)"
| "py_iter v = Inl TypeError"

fun py_len :: "pyval \<Rightarrow> error + nat" where
  "py_len (PList xs) = Inr (length xs)"
| "py_len (PStr s) = Inr (length s)"
| "py_len (PDict kvs) = Inr (length kvs)"
| "py_len v = Inl TypeError"

fun py_truthy :: "pyval \<Rightarrow> bool" where
  "py_truthy PNone = False"
| "py_truthy (PBool b) = b"
| "py_truthy (PInt n) = (n \<noteq> 0)"
| "py_truthy (PFloat f) = (f \<noteq> Fin 0)"
| "py_truthy (PStr s) = (s \<noteq> [])"
| "py_truthy (PList xs) = (xs \<noteq> [])"
| "py_truthy (PDict kvs) = (kvs \<noteq> [])"

fun join :: "string \<Rightarrow> string list \<Rightarrow> string" where
  "join sep [] = []"
| "join sep [x] = x"
| "join sep (x # y # ys) = x @ sep @ join sep (y # ys)"

fun as_str :: "pyval \<Rightarrow> error + string" where
  "as_str (PStr s) = Inr s"
| "as_str v = Inl TypeError"

definition py_join :: "string \<Rightarrow> pyval list \<Rightarrow> error + string" where
  "py_join sep xs = bindE (mapE as_str xs) (\<lambda>ss. Inr (join sep ss))"

definition replace_char :: "char \<Rightarrow> char \<Rightarrow> string \<Rightarrow> string" where
  "replace_char a b s = map (\<lambda>c. if c = a then b else c) s"

section \<open>The HTTP client and the Python runtime\<close>

text \<open>
  A response of \<^verbatim>\<open>requests.get\<close>: its status code and what \<^verbatim>\<open>json.loads\<close> makes of
  its content (an exception when the content does not decode or parse).
  \<^verbatim>\<open>Response.ok\<close> is false exactly for the client and server error codes.
\<close>

record response =
  status_code :: int
  body :: "error + pyval"

definition ok :: "response \<Rightarrow> bool" where
  "ok r = (\<not> (400 \<le> status_code r \<and> status_code r < 600))"

text \<open>
  What the code takes from the Python runtime and cannot be computed here is a
  parameter of the model:
  \<^item> \<open>set_order\<close>: the order in which \<^verbatim>\<open>list(set(xs))\<close> lists the elements (it depends
    on the hash seed of the process);
  \<^item> \<open>float_add\<close>: \<^verbatim>\<open>a + b\<close> for two numbers of which one at least is a float (the
    sum is rounded, and an integer too large for a float is an OverflowError);
  \<^item> \<open>log_index\<close>: \<^verbatim>\<open>int(math.floor(math.log(size_bytes, 1024)))\<close>, with the exceptions
    of \<^verbatim>\<open>math.log\<close>;
  \<^item> \<open>scaled_repr\<close>: the text that \<^verbatim>\<open>%s\<close> prints for
    \<^verbatim>\<open>round(size_bytes / math.pow(1024, i), 2)\<close>, with the exceptions of the power,
    the division and the rounding;
  \<^item> \<open>utc_strftime\<close>: \<^verbatim>\<open>datetime.utcfromtimestamp(t).strftime("%Y-%m-%d %H:%M:%S")\<close>;
  \<^item> \<open>repr_of\<close>: \<^verbatim>\<open>str(v)\<close> for a value that is not a string;
  \<^item> \<open>sorted_perm\<close>: the permutation \<^verbatim>\<open>sorted\<close> applies to a list with these sort keys
    (positions of the input, in output order), or the exception of a comparison;
  \<^item> \<open>response_contains\<close>: \<^verbatim>\<open>text in response\<close>, which iterates over the response.
\<close>

record pylib =
  set_order :: "pyval list \<Rightarrow> pyval list"
  float_add :: "pyval \<Rightarrow> pyval \<Rightarrow> error + pyfloat"
  log_index :: "pyval \<Rightarrow> error + int"
  scaled_repr :: "pyval \<Rightarrow> int \<Rightarrow> error + string"
  utc_strftime :: "pyval \<Rightarrow> error + string"
  repr_of :: "pyval \<Rightarrow> string"
  sorted_perm :: "pyval list \<Rightarrow> error + nat list"
  response_contains :: "string \<Rightarrow> response \<Rightarrow> bool"

definition py_str :: "pylib \<Rightarrow> pyval \<Rightarrow> string" where
  "py_str L v = (case v of PStr s \<Rightarrow> s | _ \<Rightarrow> repr_of L v)"

text \<open>\<^verbatim>\<open>list(set(xs))\<close>: building the set raises on an unhashable element.\<close>

definition list_of_set :: "pylib \<Rightarrow> pyval list \<Rightarrow> error + pyval list" where
  "list_of_set L xs =
     (if None \<in> set (map to_key xs) then Inl TypeError else Inr (set_order L xs))"

definition uniqList :: "pylib \<Rightarrow> pyval \<Rightarrow> error + pyval" where
  "uniqList L listx =
     bindE (py_iter listx) (\<lambda>xs. bindE (list_of_set L xs) (\<lambda>ys. Inr (PList ys)))"

text \<open>
  \<^verbatim>\<open>a + b\<close>: strings and lists are concatenated, booleans and integers are added as
  integers, a float and a number are added as floats.
\<close>

fun is_float :: "pyval \<Rightarrow> bool" where
  "is_float (PFloat f) = True"
| "is_float v = False"

definition is_number :: "pyval \<Rightarrow> bool" where
  "is_number v = (is_float v \<or> num_of v \<noteq> None)"

fun py_add :: "pylib \<Rightarrow> pyval \<Rightarrow> pyval \<Rightarrow> error + pyval" where
  "py_add L (PStr a) (PStr b) = Inr (PStr (a @ b))"
| "py_add L (PList a) (PList b) = Inr (PList (a @ b))"
| "py_add L a b =
     (case (num_of a, num_of b) of
        (Some x, Some y) \<Rightarrow> Inr (PInt (x + y))
      | _ \<Rightarrow>
          if is_number a \<and> is_number b
          then bindE (float_add L a b) (\<lambda>f. Inr (PFloat f))
          else Inl TypeError)"

text \<open>
  \<^verbatim>\<open>v == n\<close> and \<^verbatim>\<open>v <= n\<close> for an integer literal \<open>n\<close>. Python compares an integer
  and a float by their exact values; \<^verbatim>\<open>NaN\<close> is neither equal to nor below anything.
\<close>

fun py_eq_int :: "pyval \<Rightarrow> int \<Rightarrow> bool" where
  "py_eq_int (PFloat (Fin x)) n = (x = real_of_int n)"
| "py_eq_int (PFloat f) n = False"
| "py_eq_int v n = (num_of v = Some n)"

fun py_le_int :: "pyval \<Rightarrow> int \<Rightarrow> error + bool" where
  "py_le_int (PFloat (Fin x)) n = Inr (x \<le> real_of_int n)"
| "py_le_int (PFloat NegInf) n = Inr True"
| "py_le_int (PFloat f) n = Inr False"
| "py_le_int v n = (case num_of v of None \<Rightarrow> Inl TypeError | Some x \<Rightarrow> Inr (x \<le> n))"

text \<open>
  \<^verbatim>\<open>c[v]\<close> for any value \<open>v\<close>: an unhashable value is never a key or an index, and
  a float is no index of a list or a string.
\<close>

definition py_subscript :: "pyval \<Rightarrow> pyval \<Rightarrow> error + pyval" where
  "py_subscript c v =
     (case to_key v of
        None \<Rightarrow> Inl TypeError
      | Some k \<Rightarrow>
          (case c of
             PDict kvs \<Rightarrow> py_getitem c k
           | _ \<Rightarrow> if is_float v then Inl TypeError else py_getitem c k))"

text \<open>
  \<^verbatim>\<open>convertSize\<close>: the test \<^verbatim>\<open>size_bytes == 0\<close>; then the index, the scaled and rounded
  value, the lookup in the tuple of the nine units, and \<^verbatim>\<open>"%s %s"\<close>. The tuple is
  looked up when the arguments of the format are evaluated, after the value.
\<close>

definition size_name :: "string list" where
  "size_name = [''B'', ''KB'', ''MB'', ''GB'', ''TB'', ''PB'', ''EB'', ''ZB'', ''YB'']"

definition convertSize :: "pylib \<Rightarrow> pyval \<Rightarrow> error + pyval" where
  "convertSize L size_bytes =
     (if py_eq_int size_bytes 0 then Inr (PStr ''0B'')
      else bindE (log_index L size_bytes) (\<lambda>i.
           bindE (scaled_repr L size_bytes i) (\<lambda>s.
           bindE (seq_index size_name i) (\<lambda>unit. Inr (PStr (s @ '' '' @ unit))))))"

section \<open>Records\<close>

text \<open>The dictionary \<^verbatim>\<open>info\<close>: its keys are string literals of the source.\<close>

type_synonym info = "string \<rightharpoonup> pyval"

definition getEmptyInfo :: info where
  "getEmptyInfo = map_of
     [(''hash'', PStr ''-''),
      (''result'', PStr ''- / -''),
      (''virus'', PStr ''-''),
      (''last_submitted'', PStr ''-''),
      (''first_submitted'', PStr ''-''),
      (''filenames'', PStr ''-''),
      (''filetype'', PStr ''-''),
      (''rating'', PStr ''unknown''),
      (''positives'', PInt 0),
      (''imphash'', PStr ''-''),
      (''harmless'', PBool False),
      (''revoked'', PBool False),
      (''signed'', PBool False),
      (''expired'', PBool False),
      (''mssoft'', PBool False),
      (''vendor_results'', PDict []),
      (''signer'', PStr ''-''),
      (''vt_queried'', PBool True),
      (''tags'', PList []),
      (''copyright'', PStr ''-''),
      (''description'', PStr ''-''),
      (''times_submitted'', PInt 0),
      (''reputation'', PInt 0),
      (''filesize'', PInt 0)]"

text \<open>
  \<^verbatim>\<open>os.path.basename(path.replace("\\", "/"))\<close> with the POSIX \<^verbatim>\<open>os.path\<close>: what
  follows the last slash. The character \<open>0x5C\<close> is the backslash.
\<close>

definition get_crossplatfrom_basename :: "string \<Rightarrow> string" where
  "get_crossplatfrom_basename path =
     rev (takeWhile (\<lambda>c. c \<noteq> CHR ''/'') (rev (replace_char (CHR 0x5C) (CHR ''/'') path)))"

text \<open>Applied to a value that is not a string, \<^verbatim>\<open>path.replace\<close> is an AttributeError.\<close>

fun basename_of :: "pyval \<Rightarrow> error + string" where
  "basename_of (PStr p) = Inr (get_crossplatfrom_basename p)"
| "basename_of v = Inl AttributeError"

section \<open>Statements of the try block\<close>

text \<open>
  \<^verbatim>\<open>processVirustotalSampleInfo\<close> mutates \<^verbatim>\<open>info\<close> statement by statement inside
  \<^verbatim>\<open>try: ... except Exception: ... finally: return info\<close>. A statement maps the
  dictionary to the dictionary it leaves behind and the exception it raised, if any;
  a block stops at the first exception and keeps what was written before.
\<close>

type_synonym stmt = "info \<Rightarrow> info \<times> error option"

definition assign :: "string \<Rightarrow> (info \<Rightarrow> error + pyval) \<Rightarrow> stmt" where
  "assign k rhs i = (case rhs i of Inl e \<Rightarrow> (i, Some e) | Inr v \<Rightarrow> (i(k \<mapsto> v), None))"

fun run_block :: "stmt list \<Rightarrow> stmt" where
  "run_block [] i = (i, None)"
| "run_block (s # ss) i =
     (case s i of (i', None) \<Rightarrow> run_block ss i' | (i', Some e) \<Rightarrow> (i', Some e))"

definition if_stmt :: "error + bool \<Rightarrow> stmt \<Rightarrow> stmt" where
  "if_stmt c block i =
     (case c of Inl e \<Rightarrow> (i, Some e) | Inr b \<Rightarrow> if b then block i else (i, None))"

text \<open>\<^verbatim>\<open>sample_info["attributes"][k]\<close> and the tests and lookups one level below.\<close>

definition attr :: "pyval \<Rightarrow> string \<Rightarrow> error + pyval" where
  "attr s k = bindE (py_getitem s (KStr ''attributes'')) (\<lambda>a. py_getitem a (KStr k))"

definition attr2 :: "pyval \<Rightarrow> string \<Rightarrow> string \<Rightarrow> error + pyval" where
  "attr2 s k1 k2 = bindE (attr s k1) (\<lambda>v. py_getitem v (KStr k2))"

definition has_attr :: "pyval \<Rightarrow> string \<Rightarrow> error + bool" where
  "has_attr s k = bindE (py_getitem s (KStr ''attributes'')) (\<lambda>a. py_contains (KStr k) a)"

definition has_attr2 :: "pyval \<Rightarrow> string \<Rightarrow> string \<Rightarrow> error + bool" where
  "has_attr2 s k1 k2 = bindE (attr s k1) (\<lambda>v. py_contains (KStr k2) v)"

text \<open>Lines 213 to 215.\<close>

definition names_stmt :: "pylib \<Rightarrow> pyval \<Rightarrow> stmt" where
  "names_stmt L s = assign ''filenames'' (\<lambda>i.
     bindE (attr s ''names'') (\<lambda>names.
     bindE (py_iter names) (\<lambda>items.
     bindE (mapE basename_of items) (\<lambda>bs.
     bindE (list_of_set L (map PStr bs)) (\<lambda>fs. Inr (PList fs))))))"

text \<open>
  Lines 216 to 226; \<^verbatim>\<open>info["filenames"]\<close> is the list the statement before has stored.
\<close>

definition meaningful_stmt :: "pyval \<Rightarrow> stmt" where
  "meaningful_stmt s = if_stmt (has_attr s ''meaningful_name'') (\<lambda>i.
     case bindE (attr s ''meaningful_name'') basename_of of
       Inl e \<Rightarrow> (i, Some e)
     | Inr meaningful_name \<Rightarrow>
         (case i ''filenames'' of
            Some (PList fs) \<Rightarrow>
              (i(''filenames'' \<mapsto> PList (PStr meaningful_name #
                   (if PStr meaningful_name \<in> set fs then remove1 (PStr meaningful_name) fs
                    else fs))),
               None)
          | _ \<Rightarrow> (i, Some TypeError)))"

text \<open>Line 228.\<close>

definition join_stmt :: stmt where
  "join_stmt = assign ''filenames'' (\<lambda>i.
     case i ''filenames'' of
       Some (PList fs) \<Rightarrow>
         bindE (py_join '', '' fs) (\<lambda>j. Inr (PStr (replace_char (CHR '';'') (CHR ''_'') j)))
     | _ \<Rightarrow> Inl TypeError)"

text \<open>Lines 245 to 256: the description is read only under the copyright test.\<close>

definition exiftool_stmt :: "pyval \<Rightarrow> stmt" where
  "exiftool_stmt s =
     if_stmt (has_attr s ''exiftool'')
       (if_stmt (has_attr2 s ''exiftool'' ''LegalCopyright'')
          (run_block
            [if_stmt (has_attr2 s ''exiftool'' ''LegalCopyright'')
               (assign ''copyright'' (\<lambda>i. attr2 s ''exiftool'' ''LegalCopyright'')),
             if_stmt (has_attr2 s ''exiftool'' ''FileDescription'')
               (assign ''description'' (\<lambda>i. attr2 s ''exiftool'' ''FileDescription''))]))"

text \<open>Lines 258 to 261.\<close>

definition pe_info_stmt :: "pyval \<Rightarrow> stmt" where
  "pe_info_stmt s =
     if_stmt (has_attr s ''pe_info'')
       (if_stmt (has_attr2 s ''pe_info'' ''imphash'')
          (assign ''imphash'' (\<lambda>i. attr2 s ''pe_info'' ''imphash'')))"

text \<open>Lines 263 to 274.\<close>

definition signature_stmt :: "pyval \<Rightarrow> stmt" where
  "signature_stmt s =
     if_stmt (has_attr s ''signature_info'')
       (run_block
         [if_stmt (has_attr2 s ''signature_info'' ''signers'')
            (assign ''signer'' (\<lambda>i. attr2 s ''signature_info'' ''signers'')),
          if_stmt (has_attr2 s ''signature_info'' ''verified'')
            (run_block
              [if_stmt (bindE (attr2 s ''signature_info'' ''verified'')
                       (\<lambda>v. Inr (v = PStr ''Signed'')))
                 (assign ''signed'' (\<lambda>i. Inr (PBool True))),
               if_stmt (bindE (attr2 s ''signature_info'' ''verified'')
                       (py_contains (KStr ''Revoked'')))
                 (assign ''revoked'' (\<lambda>i. Inr (PBool True))),
               if_stmt (bindE (attr2 s ''signature_info'' ''verified'')
                       (py_contains (KStr ''Expired'')))
                 (assign ''expired'' (\<lambda>i. Inr (PBool True)))])])"

text \<open>Lines 281 to 296.\<close>

definition stat :: "pyval \<Rightarrow> string \<Rightarrow> error + pyval" where
  "stat s k = attr2 s ''last_analysis_stats'' k"

definition positives_value :: "pylib \<Rightarrow> pyval \<Rightarrow> error + pyval" where
  "positives_value L s =
     bindE (stat s ''malicious'') (\<lambda>m.
     bindE (stat s ''suspicious'') (\<lambda>u. py_add L m u))"

definition positives_stmt :: "pylib \<Rightarrow> pyval \<Rightarrow> stmt" where
  "positives_stmt L s = assign ''positives'' (\<lambda>i. positives_value L s)"

definition total_value :: "pylib \<Rightarrow> pyval \<Rightarrow> error + pyval" where
  "total_value L s =
     bindE (stat s ''undetected'') (\<lambda>a.
     bindE (stat s ''malicious'') (\<lambda>b.
     bindE (py_add L a b) (\<lambda>ab.
     bindE (stat s ''suspicious'') (\<lambda>c.
     bindE (py_add L ab c) (\<lambda>abc.
     bindE (stat s ''harmless'') (\<lambda>d. py_add L abc d))))))"

definition total_stmt :: "pylib \<Rightarrow> pyval \<Rightarrow> stmt" where
  "total_stmt L s = assign ''total'' (\<lambda>i. total_value L s)"

definition rating_of :: "pyval \<Rightarrow> error + string" where
  "rating_of p =
     (if py_eq_int p 0 then Inr ''clean''
      else bindE (py_le_int p 10) (\<lambda>b. Inr (if b then ''suspicious'' else ''malicious'')))"

definition rating_stmt :: stmt where
  "rating_stmt = assign ''rating'' (\<lambda>i.
     case i ''positives'' of
       None \<Rightarrow> Inl KeyError
     | Some p \<Rightarrow> bindE (rating_of p) (\<lambda>r. Inr (PStr r)))"

text \<open>
  Lines 312 to 322, the loop over the vendors, with the list \<^verbatim>\<open>virus_names\<close> and the
  dictionary \<^verbatim>\<open>info["vendor_results"]\<close> it fills. An unhashable vendor raises a
  TypeError before anything is stored: in \<^verbatim>\<open>vendor in scans\<close> when \<open>scans\<close> is not a
  list, and otherwise either in \<^verbatim>\<open>scans[vendor]\<close> or in the store under that key.
\<close>

fun vendor_loop ::
  "pylib \<Rightarrow> pyval \<Rightarrow> pyval list \<Rightarrow> string list \<Rightarrow> (key \<times> pyval) list \<Rightarrow>
     string list \<times> (key \<times> pyval) list \<times> error option" where
  "vendor_loop L scans [] virus_names vr = (virus_names, vr, None)"
| "vendor_loop L scans (vendor # vs) virus_names vr =
     (case to_key vendor of
        None \<Rightarrow> (virus_names, vr, Some TypeError)
      | Some k \<Rightarrow>
          (case py_contains k scans of
             Inl e \<Rightarrow> (virus_names, vr, Some e)
           | Inr b \<Rightarrow>
               if b then
                 (case bindE (py_subscript scans vendor)
                         (\<lambda>r. py_getitem r (KStr ''result'')) of
                    Inl e \<Rightarrow> (virus_names, vr, Some e)
                  | Inr res \<Rightarrow>
                      if py_truthy res then
                        vendor_loop L scans vs
                          (virus_names @ [py_str L vendor @ '': '' @ py_str L res])
                          (AList.update k res vr)
                      else vendor_loop L scans vs virus_names (AList.update k (PStr ''-'') vr))
               else vendor_loop L scans vs virus_names (AList.update k (PStr ''-'') vr)))"

text \<open>Lines 302 to 325.\<close>

definition virus_stmt :: "pylib \<Rightarrow> pyval \<Rightarrow> pyval \<Rightarrow> stmt" where
  "virus_stmt L s VENDORS i =
     (case attr s ''last_analysis_results'' of
        Inl e \<Rightarrow> (i, Some e)
      | Inr scans \<Rightarrow>
          (let i1 = i(''vendor_results'' \<mapsto> PDict []) in
           case bindE (py_getitem VENDORS (KNum 0))
                  (\<lambda>v0. if v0 = PStr ''ALL'' then py_iter scans else py_iter VENDORS) of
             Inl e \<Rightarrow> (i1, Some e)
           | Inr loop_vendors \<Rightarrow>
               (case vendor_loop L scans loop_vendors [] [] of
                  (virus_names, vr, Some e) \<Rightarrow> (i1(''vendor_results'' \<mapsto> PDict vr), Some e)
                | (virus_names, vr, None) \<Rightarrow>
                    (if virus_names \<noteq> []
                     then (i1(''vendor_results'' \<mapsto> PDict vr,
                              ''virus'' \<mapsto> PStr (join '' / '' virus_names)), None)
                     else (i1(''vendor_results'' \<mapsto> PDict vr), None)))))"

section \<open>The record normalizer\<close>

text \<open>The statements of lines 213 to 279, before the detection statistics are read.\<close>

definition properties_block :: "pylib \<Rightarrow> pyval \<Rightarrow> stmt list" where
  "properties_block L s =
     [names_stmt L s,
      meaningful_stmt s,
      join_stmt,
      assign ''filetype'' (\<lambda>i. attr s ''type_description''),
      assign ''filesize'' (\<lambda>i. bindE (attr s ''size'') (convertSize L)),
      assign ''tags'' (\<lambda>i. attr s ''tags''),
      assign ''first_submitted'' (\<lambda>i.
        bindE (attr s ''first_submission_date'')
          (\<lambda>t. bindE (utc_strftime L t) (\<lambda>d. Inr (PStr d)))),
      assign ''times_submitted'' (\<lambda>i. attr s ''times_submitted''),
      assign ''reputation'' (\<lambda>i. attr s ''reputation''),
      exiftool_stmt s,
      pe_info_stmt s,
      signature_stmt s,
      assign ''md5'' (\<lambda>i. attr s ''md5''),
      assign ''sha1'' (\<lambda>i. attr s ''sha1''),
      assign ''sha256'' (\<lambda>i. attr s ''sha256'')]"

text \<open>The statements of lines 281 to 325.\<close>

definition stats_block :: "pylib \<Rightarrow> pyval \<Rightarrow> pyval \<Rightarrow> stmt list" where
  "stats_block L s VENDORS =
     [positives_stmt L s,
      total_stmt L s,
      rating_stmt,
      assign ''last_submitted'' (\<lambda>i.
        bindE (attr s ''last_submission_date'')
          (\<lambda>t. bindE (utc_strftime L t) (\<lambda>d. Inr (PStr d)))),
      virus_stmt L s VENDORS]"

text \<open>
  \<^verbatim>\<open>processVirustotalSampleInfo(sample_info, debug, VENDORS)\<close>. The handler only prints
  (under \<^verbatim>\<open>debug\<close>) and \<^verbatim>\<open>finally: return info\<close> returns the dictionary whatever was
  raised, so the result is the dictionary and the exception is dropped. The test
  \<^verbatim>\<open>"attributes" not in sample_info\<close> is inside the try block as well.
\<close>

definition processVirustotalSampleInfo :: "pylib \<Rightarrow> pyval \<Rightarrow> pyval \<Rightarrow> info" where
  "processVirustotalSampleInfo L sample_info VENDORS =
     (let info = getEmptyInfo in
      case py_contains (KStr ''attributes'') sample_info of
        Inl e \<Rightarrow> info
      | Inr b \<Rightarrow>
          if \<not> b then info
          else fst (run_block
                 (properties_block L sample_info @ stats_block L sample_info VENDORS) info))"

section \<open>The network\<close>

text \<open>
  Every call of \<^verbatim>\<open>requests.get\<close> either raises or returns a response. The network
  is a function of the number of requests made before and of the URL, so that the
  same URL may answer differently on a retry. A run is recorded as the list of its
  requests and sleeps.
\<close>

datatype event = is_Get: Get string | Sleep int

datatype outcome = Raises | Returns response

type_synonym network = "nat \<Rightarrow> string \<Rightarrow> outcome"

definition n_requests :: "event list \<Rightarrow> nat" where
  "n_requests tr = length (filter is_Get tr)"

definition http_get :: "network \<Rightarrow> string \<Rightarrow> event list \<Rightarrow> outcome \<times> event list" where
  "http_get net url tr = (net (n_requests tr) url, tr @ [Get url])"

definition VT_REPORT_URL :: "string \<Rightarrow> string" where
  "VT_REPORT_URL h = ''https://www.virustotal.com/api/v3/files/'' @ h"

definition VT_COMMENT_API :: "string \<Rightarrow> string" where
  "VT_COMMENT_API h =
     ''https://www.virustotal.com/api/v3/files/'' @ h @ ''/comments?relationships=author''"

definition VT_USER_API :: "string \<Rightarrow> string" where
  "VT_USER_API u = ''https://www.virustotal.com/api/v3/users/'' @ u"

definition RETROHUNT_URL :: string where
  "RETROHUNT_URL = ''https://www.virustotal.com/api/v3/intelligence/retrohunt_jobs''"

section \<open>The comment enricher\<close>

text \<open>
  Lines 354 to 356: the loop over the comments, with the lists \<^verbatim>\<open>info["commenter"]\<close>
  and \<^verbatim>\<open>info["tags"]\<close> it extends in place.
\<close>

fun comments_loop ::
  "pyval list \<Rightarrow> pyval list \<Rightarrow> pyval list \<Rightarrow> pyval list \<times> pyval list \<times> error option" where
  "comments_loop [] commenter tags = (commenter, tags, None)"
| "comments_loop (com # cs) commenter tags =
     (case bindE (py_getitem com (KStr ''relationships'')) (\<lambda>r.
           bindE (py_getitem r (KStr ''author'')) (\<lambda>a.
           bindE (py_getitem a (KStr ''data'')) (\<lambda>d. py_getitem d (KStr ''id'')))) of
        Inl e \<Rightarrow> (commenter, tags, Some e)
      | Inr author \<Rightarrow>
          (case bindE (py_getitem com (KStr ''attributes'')) (\<lambda>a.
                bindE (py_getitem a (KStr ''tags'')) py_iter) of
             Inl e \<Rightarrow> (commenter @ [author], tags, Some e)
           | Inr ts \<Rightarrow> comments_loop cs (commenter @ [author]) (tags @ ts)))"

definition comment_defaults :: info where
  "comment_defaults = map_of
     [(''comments'', PInt 0), (''commenter'', PList [PStr ''-'']), (''tags'', PList [])]"

text \<open>
  \<^verbatim>\<open>searchVirustotalComments(sha256, debug)\<close>: every exception ends the try block and
  the dictionary is returned as it stands.
\<close>

definition searchVirustotalComments ::
  "pylib \<Rightarrow> network \<Rightarrow> pyval \<Rightarrow> event list \<Rightarrow> info \<times> event list" where
  "searchVirustotalComments L net sha256 tr =
     (let info = comment_defaults in
      case http_get net (VT_COMMENT_API (py_str L sha256)) tr of
        (Raises, tr1) \<Rightarrow> (info, tr1)
      | (Returns r_code_comments, tr1) \<Rightarrow>
          if \<not> ok r_code_comments then (info, tr1)
          else
            (case body r_code_comments of
               Inl e \<Rightarrow> (info, tr1)
             | Inr r_comments \<Rightarrow>
                 (case bindE (py_getitem r_comments (KStr ''data'')) py_len of
                    Inl e \<Rightarrow> (info, tr1)
                  | Inr n \<Rightarrow>
                      (let info1 = info(''comments'' \<mapsto> PInt (int n)) in
                       if 0 < n then
                         (case bindE (py_getitem r_comments (KStr ''data'')) py_iter of
                            Inl e \<Rightarrow> (info1(''commenter'' \<mapsto> PList []), tr1)
                          | Inr coms \<Rightarrow>
                              (case comments_loop coms [] [] of
                                 (commenter, tags, x) \<Rightarrow>
                                   (info1(''commenter'' \<mapsto> PList commenter,
                                          ''tags'' \<mapsto> PList tags), tr1)))
                       else (info1, tr1)))))"

section \<open>The request loop\<close>

text \<open>
  Lines 39 to 61. An exception of \<^verbatim>\<open>requests.get\<close> or of \<^verbatim>\<open>json.loads\<close> leaves
  \<^verbatim>\<open>success\<close> false and the loop sends the request again. On status 429 with
  \<^verbatim>\<open>vtwaitquota\<close> the loop sleeps and goes on; \<^verbatim>\<open>time.sleep\<close> raises on a negative
  duration, after \<^verbatim>\<open>success = True\<close>, which ends the loop. The loop may run forever:
  then the function has no value.
\<close>

partial_function (option) request_loop ::
  "network \<Rightarrow> string \<Rightarrow> int \<Rightarrow> bool \<Rightarrow> event list \<Rightarrow> (response \<times> pyval \<times> event list) option"
where
  "request_loop net url wait vtwaitquota tr =
     (case http_get net url tr of
        (Raises, tr1) \<Rightarrow> request_loop net url wait vtwaitquota tr1
      | (Returns response_dict_code, tr1) \<Rightarrow>
          (case body response_dict_code of
             Inl e \<Rightarrow> request_loop net url wait vtwaitquota tr1
           | Inr response_dict \<Rightarrow>
               if status_code response_dict_code = 429 \<and> vtwaitquota then
                 (if wait < 0 then Some (response_dict_code, response_dict, tr1)
                  else request_loop net url wait vtwaitquota (tr1 @ [Sleep wait]))
               else Some (response_dict_code, response_dict, tr1)))"

text \<open>
  Lines 64 to 66:
  \<^verbatim>\<open>"error" in d and "code" in d["error"] and "NotFoundError" in d["error"]["code"]\<close>.
\<close>

definition not_found_check :: "pyval \<Rightarrow> error + bool" where
  "not_found_check d =
     bindE (py_contains (KStr ''error'') d) (\<lambda>b1.
       if \<not> b1 then Inr False
       else bindE (bindE (py_getitem d (KStr ''error'')) (py_contains (KStr ''code''))) (\<lambda>b2.
         if \<not> b2 then Inr False
         else bindE (py_getitem d (KStr ''error'')) (\<lambda>e.
              bindE (py_getitem e (KStr ''code'')) (py_contains (KStr ''NotFoundError'')))))"

definition dedup_tags :: "pylib \<Rightarrow> info \<Rightarrow> error + info" where
  "dedup_tags L i =
     (case i ''tags'' of
        None \<Rightarrow> Inl KeyError
      | Some t \<Rightarrow> bindE (uniqList L t) (\<lambda>u. Inr (i(''tags'' \<mapsto> u))))"

text \<open>Lines 77 and 78: the comment fields overwrite what the dictionary has.\<close>

definition enrich :: "pylib \<Rightarrow> network \<Rightarrow> info \<Rightarrow> event list \<Rightarrow> info \<times> event list" where
  "enrich L net info tr =
     (case info ''sha256'' of
        None \<Rightarrow> (info, tr)
      | Some h \<Rightarrow> (case searchVirustotalComments L net h tr of (c, tr') \<Rightarrow> (info ++ c, tr')))"

text \<open>Lines 84 to 91.\<close>

definition legacy_flags :: "pylib \<Rightarrow> response \<Rightarrow> info \<Rightarrow> info" where
  "legacy_flags L r info =
     (let info1 = (if response_contains L ''Probably harmless!'' r
                   then info(''harmless'' \<mapsto> PBool True) else info)
      in if response_contains L
              ''This file belongs to the Microsoft Corporation software catalogue.'' r
         then info1(''mssoft'' \<mapsto> PBool True) else info1)"

text \<open>
  \<^verbatim>\<open>getVTInfo\<close>. The result is the returned dictionary or the exception that reaches
  the caller, with the record of the run; no value when the loop never ends. Under
  \<^verbatim>\<open>debug\<close> the test of lines 64 to 66 is not evaluated.
\<close>

definition getVTInfo ::
  "pylib \<Rightarrow> network \<Rightarrow> string \<Rightarrow> bool \<Rightarrow> pyval \<Rightarrow> int \<Rightarrow> bool \<Rightarrow>
     ((error + info) \<times> event list) option" where
  "getVTInfo L net hash debug vtallvendors QUOTA_EXCEEDED_WAIT_TIME vtwaitquota =
     (case request_loop net (VT_REPORT_URL hash) QUOTA_EXCEEDED_WAIT_TIME vtwaitquota [] of
        None \<Rightarrow> None
      | Some (response_dict_code, response_dict, tr) \<Rightarrow>
          if \<not> ok response_dict_code then
            (case (if debug then Inr True else not_found_check response_dict) of
               Inl e \<Rightarrow> Some (Inl e, tr)
             | Inr b \<Rightarrow> Some (Inr (getEmptyInfo(''hash'' \<mapsto> PStr hash)), tr))
          else
            (case py_getitem response_dict (KStr ''data'') of
               Inl e \<Rightarrow> Some (Inl e, tr)
             | Inr data \<Rightarrow>
                 (case enrich L net (processVirustotalSampleInfo L data vtallvendors) tr of
                    (info, tr1) \<Rightarrow>
                      (case dedup_tags L (info(''hash'' \<mapsto> PStr hash)) of
                         Inl e \<Rightarrow> Some (Inl e, tr1)
                       | Inr info1 \<Rightarrow>
                           Some (Inr (legacy_flags L response_dict_code info1), tr1)))))"

section \<open>The retrohunt pager\<close>

text \<open>Lines 135 to 138.\<close>

definition comment_fields ::
  "pylib \<Rightarrow> network \<Rightarrow> bool \<Rightarrow> pyval \<Rightarrow> info \<Rightarrow> event list \<Rightarrow> info \<times> event list" where
  "comment_fields L net no_comments fid file_info tr =
     (if \<not> no_comments
      then (case searchVirustotalComments L net fid tr of (c, tr') \<Rightarrow> (file_info ++ c, tr'))
      else (file_info ++ map_of [(''comments'', PInt 0), (''commenter'', PList [])], tr))"

text \<open>
  Lines 123 to 142, the body of the loop over the entries of one page: no record for
  an entry that is skipped, and the exception when one is raised (it is not caught and
  ends the whole call). The message printed for a skipped entry reads
  \<^verbatim>\<open>file["id"]\<close> and \<^verbatim>\<open>file["error"]["message"]\<close>.
\<close>

definition retrohunt_entry ::
  "pylib \<Rightarrow> network \<Rightarrow> bool \<Rightarrow> pyval \<Rightarrow> pyval \<Rightarrow> event list \<Rightarrow>
     (error + info option) \<times> event list" where
  "retrohunt_entry L net no_comments V file tr =
     (case py_contains (KStr ''error'') file of
        Inl e \<Rightarrow> (Inl e, tr)
      | Inr b \<Rightarrow>
          if b then
            (case bindE (py_getitem file (KStr ''id'')) (\<lambda>fid.
                  bindE (py_getitem file (KStr ''error'')) (\<lambda>er.
                    py_getitem er (KStr ''message''))) of
               Inl e \<Rightarrow> (Inl e, tr)
             | Inr m \<Rightarrow> (Inr None, tr))
          else
            (let file_info = processVirustotalSampleInfo L file V in
             case py_getitem file (KStr ''id'') of
               Inl e \<Rightarrow> (Inl e, tr)
             | Inr fid \<Rightarrow>
                 (case bindE (py_getitem file (KStr ''context_attributes''))
                         (\<lambda>c. py_getitem c (KStr ''rule_name'')) of
                    Inl e \<Rightarrow> (Inl e, tr)
                  | Inr rule \<Rightarrow>
                      (case comment_fields L net no_comments fid
                              (file_info(''hash'' \<mapsto> fid, ''matching_rule'' \<mapsto> rule)) tr of
                         (i2, tr1) \<Rightarrow>
                           (case dedup_tags L i2 of
                              Inl e \<Rightarrow> (Inl e, tr1)
                            | Inr i3 \<Rightarrow> (Inr (Some i3), tr1))))))"

text \<open>Lines 122 to 142, the loop over the entries of one page.\<close>

fun files_loop ::
  "pylib \<Rightarrow> network \<Rightarrow> bool \<Rightarrow> pyval \<Rightarrow> pyval list \<Rightarrow> info list \<Rightarrow> event list \<Rightarrow>
     (error + info list) \<times> event list" where
  "files_loop L net no_comments V [] files tr = (Inr files, tr)"
| "files_loop L net no_comments V (file # fs) files tr =
     (case retrohunt_entry L net no_comments V file tr of
        (Inl e, tr1) \<Rightarrow> (Inl e, tr1)
      | (Inr None, tr1) \<Rightarrow> files_loop L net no_comments V fs files tr1
      | (Inr (Some file_info), tr1) \<Rightarrow>
          files_loop L net no_comments V fs (files @ [file_info]) tr1)"

text \<open>
  Lines 106 to 150, the loop over the pages. A response that is not ok and a
  ValueError of \<^verbatim>\<open>json.loads\<close> end the loop; the next URL is whatever the page gives.
\<close>

partial_function (option) pages_loop ::
  "pylib \<Rightarrow> network \<Rightarrow> bool \<Rightarrow> pyval \<Rightarrow> string \<Rightarrow> info list \<Rightarrow> event list \<Rightarrow>
     ((error + info list) \<times> event list) option"
where
  "pages_loop L net no_comments V url files tr =
     (case http_get net url tr of
        (Raises, tr1) \<Rightarrow> Some (Inl LibError, tr1)
      | (Returns response, tr1) \<Rightarrow>
          if \<not> ok response then Some (Inr files, tr1)
          else
            (case body response of
               Inl e \<Rightarrow> if e = ValueError then Some (Inr files, tr1) else Some (Inl e, tr1)
             | Inr response_json \<Rightarrow>
                 (case bindE (py_getitem response_json (KStr ''data'')) py_iter of
                    Inl e \<Rightarrow> Some (Inl e, tr1)
                  | Inr page \<Rightarrow>
                      (case files_loop L net no_comments V page files tr1 of
                         (Inl e, tr2) \<Rightarrow> Some (Inl e, tr2)
                       | (Inr files1, tr2) \<Rightarrow>
                           (case bindE (py_getitem response_json (KStr ''links''))
                                   (py_contains (KStr ''next'')) of
                              Inl e \<Rightarrow> Some (Inl e, tr2)
                            | Inr b \<Rightarrow>
                                if b then
                                  (case bindE (py_getitem response_json (KStr ''links''))
                                          (\<lambda>l. py_getitem l (KStr ''next'')) of
                                     Inl e \<Rightarrow> Some (Inl e, tr2)
                                   | Inr nxt \<Rightarrow>
                                       pages_loop L net no_comments V (py_str L nxt) files1 tr2)
                                else Some (Inr files1, tr2))))))"

text \<open>Line 151: \<^verbatim>\<open>sorted(files, key=lambda i: i["matching_rule"])\<close>.\<close>

definition sorted_by_rule :: "pylib \<Rightarrow> info list \<Rightarrow> error + info list" where
  "sorted_by_rule L files =
     bindE (mapE (\<lambda>i. case i ''matching_rule'' of None \<Rightarrow> Inl KeyError | Some k \<Rightarrow> Inr k) files)
       (\<lambda>keys. bindE (sorted_perm L keys) (\<lambda>p. Inr (map (\<lambda>n. files ! n) p)))"

definition getRetrohuntResults ::
  "pylib \<Rightarrow> network \<Rightarrow> string \<Rightarrow> bool \<Rightarrow> pyval \<Rightarrow> ((error + info list) \<times> event list) option" where
  "getRetrohuntResults L net retrohunt_id no_comments vtallvendors =
     (case pages_loop L net no_comments vtallvendors
             (RETROHUNT_URL @ ''/'' @ retrohunt_id @ ''/matching_files?limit=300'') [] [] of
        None \<Rightarrow> None
      | Some (Inl e, tr) \<Rightarrow> Some (Inl e, tr)
      | Some (Inr files, tr) \<Rightarrow> Some (sorted_by_rule L files, tr))"

section \<open>The quota inspector\<close>

datatype quota = NoResult | Quota pyval pyval pyval pyval

definition quota_field :: "pyval \<Rightarrow> string \<Rightarrow> string \<Rightarrow> error + pyval" where
  "quota_field j period k =
     bindE (py_getitem j (KStr ''data'')) (\<lambda>d.
     bindE (py_getitem d (KStr ''attributes'')) (\<lambda>a.
     bindE (py_getitem a (KStr ''quotas'')) (\<lambda>q.
     bindE (py_getitem q (KStr period)) (\<lambda>p. py_getitem p (KStr k)))))"

text \<open>
  Lines 390 to 393, the handler of \<^verbatim>\<open>checkVirustotalQuota\<close>: it evaluates the name
  \<^verbatim>\<open>debug\<close>, which is neither a parameter or local of this function nor a global of
  the module, so the handler itself raises a NameError (as would the name \<^verbatim>\<open>info\<close>
  of the statement after it).
\<close>

definition quota_handler :: "error \<Rightarrow> error + quota" where
  "quota_handler e = Inl NameError"

text \<open>\<^verbatim>\<open>checkVirustotalQuota(VT_USERID)\<close>; a plain \<^verbatim>\<open>return\<close> returns \<^verbatim>\<open>None\<close>.\<close>

definition checkVirustotalQuota :: "network \<Rightarrow> string \<Rightarrow> error + quota" where
  "checkVirustotalQuota net VT_USERID =
     (case fst (http_get net (VT_USER_API VT_USERID) []) of
        Raises \<Rightarrow> quota_handler LibError
      | Returns r_user \<Rightarrow>
          if \<not> ok r_user then Inr NoResult
          else
            (case bindE (body r_user) (\<lambda>r_user_json.
                  bindE (quota_field r_user_json ''api_requests_daily'' ''used'') (\<lambda>ud.
                  bindE (quota_field r_user_json ''api_requests_daily'' ''allowed'') (\<lambda>ad.
                  bindE (quota_field r_user_json ''api_requests_monthly'' ''used'') (\<lambda>um.
                  bindE (quota_field r_user_json ''api_requests_monthly'' ''allowed'') (\<lambda>am.
                    Inr (Quota ud ad um am)))))) of
               Inl e \<Rightarrow> quota_handler e
             | Inr q \<Rightarrow> Inr q))"

section \<open>Properties of records\<close>

text \<open>
  A statement keeps a key when it leaves the value under that key as it is, whether
  it raises or not. The keys written by the two blocks of the normalizer, by the
  lookup after normalization and by the pager after normalization follow.
\<close>

definition keeps :: "string \<Rightarrow> stmt \<Rightarrow> bool" where
  "keeps k s = (\<forall>i. fst (s i) k = i k)"

definition properties_keys :: "string list" where
  "properties_keys =
     [''filenames'', ''filetype'', ''filesize'', ''tags'', ''first_submitted'',
      ''times_submitted'', ''reputation'', ''copyright'', ''description'', ''imphash'',
      ''signer'', ''signed'', ''revoked'', ''expired'', ''md5'', ''sha1'', ''sha256'']"

definition stats_keys :: "string list" where
  "stats_keys =
     [''positives'', ''total'', ''rating'', ''last_submitted'', ''vendor_results'', ''virus'']"

definition lookup_keys :: "string list" where
  "lookup_keys = [''hash'', ''tags'', ''comments'', ''commenter'', ''harmless'', ''mssoft'']"

definition retrohunt_keys :: "string list" where
  "retrohunt_keys = [''hash'', ''matching_rule'', ''comments'', ''commenter'', ''tags'']"

definition agrees_outside :: "string list \<Rightarrow> info \<Rightarrow> info \<Rightarrow> bool" where
  "agrees_outside ks a b = (\<forall>k. k \<notin> set ks \<longrightarrow> a k = b k)"

text \<open>The defaults of the fields that the statistics and virus-name block fills.\<close>

definition stats_defaults :: "info \<Rightarrow> bool" where
  "stats_defaults r =
     (r ''positives'' = Some (PInt 0) \<and> r ''rating'' = Some (PStr ''unknown'') \<and>
      r ''total'' = None \<and> r ''last_submitted'' = Some (PStr ''-'') \<and>
      r ''virus'' = Some (PStr ''-'') \<and> r ''vendor_results'' = Some (PDict []))"

text \<open>
  The keys of \<^verbatim>\<open>attributes\<close> that are read without a presence test, each with the
  position of its statement in \<open>properties_block\<close>.
\<close>

definition unguarded_reads :: "(string \<times> nat) list" where
  "unguarded_reads =
     [(''names'', 0), (''type_description'', 3), (''size'', 4), (''tags'', 5),
      (''first_submission_date'', 6), (''times_submitted'', 7), (''reputation'', 8),
      (''md5'', 12), (''sha1'', 13), (''sha256'', 14)]"








text \<open>Two dictionaries with the same positives and the same rating.\<close>

definition same_rating :: "info \<Rightarrow> info \<Rightarrow> bool" where
  "same_rating r i = (r ''positives'' = i ''positives'' \<and> r ''rating'' = i ''rating'')"

text \<open>
  \<^verbatim>\<open>sorted\<close> returns a rearrangement of its input: every position it lists is a
  position of the input.
\<close>

definition sorted_rearranges :: "pylib \<Rightarrow> bool" where
  "sorted_rearranges L = (\<forall>ks p. sorted_perm L ks = Inr p \<longrightarrow> (\<forall>n \<in> set p. n < length ks))"

text \<open>
  The entries of the pages a run has fetched: every request of the run is looked up
  in the network under its number, and a response that is ok and parses contributes
  the elements of its \<^verbatim>\<open>data\<close>.
\<close>

definition page_entries :: "outcome \<Rightarrow> pyval list" where
  "page_entries oc =
     (case oc of
        Raises \<Rightarrow> []
      | Returns r \<Rightarrow>
          if \<not> ok r then []
          else (case bindE (body r) (\<lambda>j. bindE (py_getitem j (KStr ''data'')) py_iter) of
                  Inl e \<Rightarrow> []
                | Inr page \<Rightarrow> page))"

fun fetched :: "network \<Rightarrow> nat \<Rightarrow> event list \<Rightarrow> pyval list" where
  "fetched net n [] = []"
| "fetched net n (Get u # tr) = page_entries (net n u) @ fetched net (Suc n) tr"
| "fetched net n (Sleep w # tr) = fetched net n tr"

definition fetched_entries :: "network \<Rightarrow> event list \<Rightarrow> pyval list" where
  "fetched_entries net tr = fetched net 0 tr"

text \<open>
  What the pager guarantees for the record of an entry: the hash and the matching
  rule are those of the entry; outside the keys the pager writes, the record is the
  normalized entry; without comment enrichment the comment fields are those of line
  138 and the tags are the de-duplicated tags of the normalized entry.
\<close>

definition entry_record :: "pylib \<Rightarrow> pyval \<Rightarrow> bool \<Rightarrow> pyval \<Rightarrow> info \<Rightarrow> bool" where
  "entry_record L V no_comments entry r =
     ((\<exists>h. py_getitem entry (KStr ''id'') = Inr h \<and> r ''hash'' = Some h) \<and>
      (\<exists>m. bindE (py_getitem entry (KStr ''context_attributes''))
              (\<lambda>c. py_getitem c (KStr ''rule_name'')) = Inr m \<and>
           r ''matching_rule'' = Some m) \<and>
      agrees_outside retrohunt_keys r (processVirustotalSampleInfo L entry V) \<and>
      (no_comments \<longrightarrow>
         r ''comments'' = Some (PInt 0) \<and> r ''commenter'' = Some (PList []) \<and>
         (\<exists>t u. processVirustotalSampleInfo L entry V ''tags'' = Some t \<and>
                uniqList L t = Inr u \<and> r ''tags'' = Some u)))"

definition from_fetched_entry ::
  "pylib \<Rightarrow> pyval \<Rightarrow> bool \<Rightarrow> network \<Rightarrow> event list \<Rightarrow> info \<Rightarrow> bool" where
  "from_fetched_entry L V no_comments net tr r =
     (\<exists>entry \<in> set (fetched_entries net tr). entry_record L V no_comments entry r)"

text \<open>
  The defaults of the Record as the table of section 3 of the specification lists
  them: every field with a default, the comment fields among them; \<^verbatim>\<open>total\<close>, the
  three hashes and \<^verbatim>\<open>matching_rule\<close> are absent.
\<close>

definition documented_defaults :: info where
  "documented_defaults = map_of
     [(''hash'', PStr ''-''),
      (''result'', PStr ''- / -''),
      (''virus'', PStr ''-''),
      (''rating'', PStr ''unknown''),
      (''positives'', PInt 0),
      (''filenames'', PStr ''-''),
      (''filetype'', PStr ''-''),
      (''filesize'', PInt 0),
      (''imphash'', PStr ''-''),
      (''signer'', PStr ''-''),
      (''copyright'', PStr ''-''),
      (''description'', PStr ''-''),
      (''signed'', PBool False),
      (''revoked'', PBool False),
      (''expired'', PBool False),
      (''harmless'', PBool False),
      (''mssoft'', PBool False),
      (''vendor_results'', PDict []),
      (''tags'', PList []),
      (''comments'', PInt 0),
      (''commenter'', PList [PStr ''-'']),
      (''first_submitted'', PStr ''-''),
      (''last_submitted'', PStr ''-''),
      (''times_submitted'', PInt 0),
      (''reputation'', PInt 0)]"


section \<open>Example payloads and simulated runs\<close>

text \<open>
  A simulated runtime for running the model on the payloads below. It answers for
  what these payloads ask, as CPython does: sets of one element, the timestamp 0,
  lists of one record to sort, strings to print, a sum with \<^verbatim>\<open>NaN\<close>, and the index
  and the scaled value of the sizes 2048 and \<open>1024 ^ 9\<close> (\<^verbatim>\<open>math.log\<close> gives 1.1 and
  9.0). The theorems hold for every runtime.
\<close>

definition sim_lib :: pylib where
  "sim_lib =
     \<lparr>set_order = remdups,
      float_add = (\<lambda>a b. if a = PFloat NaN \<or> b = PFloat NaN then Inr NaN else Inl LibError),
      log_index = (\<lambda>v. if v = PInt 2048 then Inr 1
                        else if v = PInt (1024 ^ 9) then Inr 9 else Inl LibError),
      scaled_repr = (\<lambda>v i. if v = PInt 2048 \<and> i = 1 then Inr ''2.0''
                            else if v = PInt (1024 ^ 9) \<and> i = 9 then Inr ''1.0''
                            else Inl LibError),
      utc_strftime = (\<lambda>t. if t = PInt 0 then Inr ''1970-01-01 00:00:00'' else Inl LibError),
      repr_of = (\<lambda>v. ''?''),
      sorted_perm = (\<lambda>ks. Inr [0..<length ks]),
      response_contains = (\<lambda>t r. False)\<rparr>"

definition all_vendors :: pyval where
  "all_vendors = PList [PStr ''ALL'']"

text \<open>
  A payload with every field (the names are those of the example of the
  specification), the same without the statistics block, one without
  \<^verbatim>\<open>type_description\<close>, one whose statistics lack two of the four counts, and one
  whose count of malicious verdicts is \<^verbatim>\<open>NaN\<close>.
\<close>

definition sample_properties :: "(key \<times> pyval) list" where
  "sample_properties =
     [(KStr ''names'',
         PList [PStr (''C:'' @ [CHR 0x5C] @ ''a'' @ [CHR 0x5C] @ ''b.exe''), PStr ''b.exe'']),
      (KStr ''meaningful_name'', PStr ''b.exe''),
      (KStr ''type_description'', PStr ''Win32 EXE''),
      (KStr ''size'', PInt 0),
      (KStr ''tags'', PList [PStr ''peexe'']),
      (KStr ''first_submission_date'', PInt 0),
      (KStr ''times_submitted'', PInt 3),
      (KStr ''reputation'', PInt (- 5)),
      (KStr ''md5'', PStr ''m''),
      (KStr ''sha1'', PStr ''s1''),
      (KStr ''sha256'', PStr ''s256'')]"

definition sample_stats :: "(key \<times> pyval) list" where
  "sample_stats =
     [(KStr ''last_analysis_stats'',
         PDict [(KStr ''malicious'', PInt 12), (KStr ''suspicious'', PInt 1),
                (KStr ''undetected'', PInt 50), (KStr ''harmless'', PInt 0)]),
      (KStr ''last_submission_date'', PInt 0),
      (KStr ''last_analysis_results'',
         PDict [(KStr ''VendorA'', PDict [(KStr ''result'', PStr ''Trojan'')]),
                (KStr ''VendorB'', PDict [(KStr ''result'', PNone)])])]"

definition sample_full :: pyval where
  "sample_full = PDict [(KStr ''attributes'', PDict (sample_properties @ sample_stats))]"

definition sample_no_stats :: pyval where
  "sample_no_stats = PDict [(KStr ''attributes'', PDict sample_properties)]"

definition sample_no_type :: pyval where
  "sample_no_type =
     PDict [(KStr ''attributes'',
              PDict [(KStr ''names'', PList [PStr ''a.exe'']),
                     (KStr ''tags'', PList [PStr ''peexe''])])]"

definition sample_partial_stats :: pyval where
  "sample_partial_stats =
     PDict [(KStr ''attributes'',
       PDict (sample_properties @
         [(KStr ''last_analysis_stats'',
             PDict [(KStr ''malicious'', PInt 20), (KStr ''suspicious'', PInt 0)])]))]"

definition sample_nan_stats :: pyval where
  "sample_nan_stats =
     PDict [(KStr ''attributes'',
       PDict (sample_properties @
         [(KStr ''last_analysis_stats'',
             PDict [(KStr ''malicious'', PFloat NaN), (KStr ''suspicious'', PInt 0),
                    (KStr ''undetected'', PInt 0), (KStr ''harmless'', PInt 0)])]))]"

text \<open>
  Simulated networks: a retrohunt page with one entry and no next link; a
  rate-limited endpoint that answers 429 with a JSON error body; one whose first 429
  answer has a body that does not parse; a user endpoint whose body does not parse;
  a file report followed by a comment endpoint that answers 404.
\<close>

definition retro_file :: pyval where
  "retro_file =
     PDict [(KStr ''id'', PStr ''s256''),
            (KStr ''context_attributes'', PDict [(KStr ''rule_name'', PStr ''rule_a'')]),
            (KStr ''attributes'', PDict (sample_properties @ sample_stats))]"

definition one_page_net :: network where
  "one_page_net = (\<lambda>n url. Returns
     \<lparr>status_code = 200,
      body = Inr (PDict [(KStr ''data'', PList [retro_file]), (KStr ''links'', PDict [])])\<rparr>)"

definition quota_body :: pyval where
  "quota_body = PDict [(KStr ''error'', PDict [(KStr ''code'', PStr ''QuotaExceededError'')])]"

definition quota_net :: network where
  "quota_net = (\<lambda>n url. Returns \<lparr>status_code = 429, body = Inr quota_body\<rparr>)"

definition html_then_json_net :: network where
  "html_then_json_net = (\<lambda>n url. Returns
     \<lparr>status_code = 429, body = (if n = 0 then Inl ValueError else Inr quota_body)\<rparr>)"

definition malformed_net :: network where
  "malformed_net = (\<lambda>n url. Returns \<lparr>status_code = 200, body = Inl ValueError\<rparr>)"

definition report_net :: network where
  "report_net = (\<lambda>n url.
     if n = 0 then Returns \<lparr>status_code = 200, body = Inr (PDict [(KStr ''data'', sample_full)])\<rparr>
     else Returns \<lparr>status_code = 404, body = Inr (PDict [])\<rparr>)"

text \<open>The runs of the pager and of the lookup on these networks, and their records.\<close>

definition retro_url :: string where
  "retro_url = RETROHUNT_URL @ ''/job/matching_files?limit=300''"

definition retro_run :: "((error + info list) \<times> event list) option" where
  "retro_run = getRetrohuntResults sim_lib one_page_net ''job'' True all_vendors"

definition lookup_run :: "((error + info) \<times> event list) option" where
  "lookup_run = getVTInfo sim_lib report_net ''abc'' False all_vendors 600 False"

definition retro_expected :: info where
  "retro_expected =
     ((processVirustotalSampleInfo sim_lib retro_file all_vendors)
        (''hash'' \<mapsto> PStr ''s256'', ''matching_rule'' \<mapsto> PStr ''rule_a'') ++
      map_of [(''comments'', PInt 0), (''commenter'', PList [])])
     (''tags'' \<mapsto> PList [PStr ''peexe''])"

definition lookup_expected :: info where
  "lookup_expected =
     ((processVirustotalSampleInfo sim_lib sample_full all_vendors ++ comment_defaults)
        (''hash'' \<mapsto> PStr ''abc''))
     (''tags'' \<mapsto> PList [])"

section \<open>Frame lemmas\<close>

lemma run_block_append:
  "run_block (a @ b) i =
     (case run_block a i of (i', None) \<Rightarrow> run_block b i' | (i', Some e) \<Rightarrow> (i', Some e))"
  by (induction a arbitrary: i) (auto split: prod.splits option.splits)

lemma keeps_assign: "k \<noteq> k' \<Longrightarrow> keeps k (assign k' rhs)"
  by (auto simp: keeps_def assign_def split: sum.splits)

lemma keeps_if_stmt: "keeps k b \<Longrightarrow> keeps k (if_stmt c b)"
  by (auto simp: keeps_def if_stmt_def split: sum.splits)

lemma keeps_run_block: "list_all (keeps k) ss \<Longrightarrow> keeps k (run_block ss)"
proof (induction ss)
  case Nil
  then show ?case by (simp add: keeps_def)
next
  case (Cons s ss)
  then have s: "\<And>i. fst (s i) k = i k" and r: "\<And>i. fst (run_block ss i) k = i k"
    by (simp_all add: keeps_def)
  show ?case
    unfolding keeps_def
  proof
    fix i
    show "fst (run_block (s # ss) i) k = i k"
      using s [of i] r [of "fst (s i)"] by (cases "s i") (auto split: option.splits)
  qed
qed

lemma keeps_meaningful: "k \<noteq> ''filenames'' \<Longrightarrow> keeps k (meaningful_stmt s)"
  unfolding meaningful_stmt_def
  by (rule keeps_if_stmt) (auto simp: keeps_def split: sum.splits option.splits pyval.splits)

lemma keeps_exiftool:
  "k \<noteq> ''copyright'' \<Longrightarrow> k \<noteq> ''description'' \<Longrightarrow> keeps k (exiftool_stmt s)"
  unfolding exiftool_stmt_def
  by (intro keeps_if_stmt keeps_run_block) (simp add: keeps_if_stmt keeps_assign)

lemma keeps_pe_info: "k \<noteq> ''imphash'' \<Longrightarrow> keeps k (pe_info_stmt s)"
  unfolding pe_info_stmt_def by (intro keeps_if_stmt keeps_assign)

lemma keeps_signature:
  "k \<noteq> ''signer'' \<Longrightarrow> k \<noteq> ''signed'' \<Longrightarrow> k \<noteq> ''revoked'' \<Longrightarrow> k \<noteq> ''expired'' \<Longrightarrow>
   keeps k (signature_stmt s)"
  unfolding signature_stmt_def
  by (intro keeps_if_stmt keeps_run_block) (simp add: keeps_if_stmt keeps_assign keeps_run_block)

lemma keeps_virus:
  "k \<noteq> ''vendor_results'' \<Longrightarrow> k \<noteq> ''virus'' \<Longrightarrow> keeps k (virus_stmt L s V)"
  by (auto simp: keeps_def virus_stmt_def Let_def split: sum.splits prod.splits option.splits)

lemma keeps_properties_block:
  "k \<notin> set properties_keys \<Longrightarrow> list_all (keeps k) (properties_block L s)"
  by (simp add: properties_block_def properties_keys_def names_stmt_def join_stmt_def
        keeps_assign keeps_meaningful keeps_exiftool keeps_pe_info keeps_signature)

lemma keeps_stats_block:
  "k \<notin> set stats_keys \<Longrightarrow> list_all (keeps k) (stats_block L s V)"
  by (simp add: stats_block_def stats_keys_def positives_stmt_def total_stmt_def
        rating_stmt_def keeps_assign keeps_virus)

lemma normalizer_frame:
  assumes "k \<notin> set properties_keys" "k \<notin> set stats_keys"
  shows "processVirustotalSampleInfo L s V k = getEmptyInfo k"
proof -
  have "list_all (keeps k) (properties_block L s @ stats_block L s V)"
    using assms by (simp add: keeps_properties_block keeps_stats_block)
  then have "keeps k (run_block (properties_block L s @ stats_block L s V))"
    by (rule keeps_run_block)
  then show ?thesis
    by (simp add: processVirustotalSampleInfo_def keeps_def Let_def split: sum.splits)
qed

lemma run_block_raises:
  assumes "\<And>i. \<exists>e. s i = (i, Some e)"
  shows "fst (run_block (a @ s # b) i) = fst (run_block a i)"
proof -
  obtain i' x where a: "run_block a i = (i', x)" by (cases "run_block a i")
  obtain e where "s i' = (i', Some e)" using assms by blast
  then show ?thesis using a by (cases x) (simp_all add: run_block_append)
qed

lemma stops_at:
  assumes "n < length pb" and "\<And>i. \<exists>e. (pb ! n) i = (i, Some e)"
  shows "fst (run_block (pb @ sb) i0) = fst (run_block (take n pb) i0)"
proof -
  have "pb @ sb = take n pb @ (pb ! n) # (drop (Suc n) pb @ sb)"
    using assms(1) by (simp add: id_take_nth_drop [symmetric])
  then show ?thesis using run_block_raises [OF assms(2)] by metis
qed

lemma attr_dict:
  assumes "s = PDict skvs" and "map_of skvs (KStr ''attributes'') = Some (PDict akvs)"
  shows "attr s k = (case map_of akvs (KStr k) of None \<Rightarrow> Inl KeyError | Some v \<Rightarrow> Inr v)"
    and "has_attr s k = Inr (map_of akvs (KStr k) \<noteq> None)"
    and "py_contains (KStr ''attributes'') s = Inr True"
  using assms by (auto simp: attr_def has_attr_def bindE_def map_of_eq_None_iff weak_map_of_SomeI
      dest: map_of_SomeD intro: rev_image_eqI)

lemma unguarded_read_raises:
  assumes "s = PDict skvs" and "map_of skvs (KStr ''attributes'') = Some (PDict akvs)"
    and "(k, n) \<in> set unguarded_reads" and "map_of akvs (KStr k) = None"
  shows "n < length (properties_block L s) \<and> (properties_block L s ! n) i = (i, Some KeyError)"
  using assms(3,4)
  by (auto simp: unguarded_reads_def properties_block_def names_stmt_def assign_def bindE_def
        attr_dict(1) [OF assms(1,2)])





lemma rating_of_int:
  "rating_of (PInt n) =
     Inr (if n = 0 then ''clean'' else if n \<le> 10 then ''suspicious'' else ''malicious'')"
  by (simp add: rating_of_def bindE_def)

lemmas model_defs =
  processVirustotalSampleInfo_def properties_block_def stats_block_def getEmptyInfo_def
  names_stmt_def meaningful_stmt_def join_stmt_def exiftool_stmt_def pe_info_stmt_def
  signature_stmt_def positives_stmt_def positives_value_def total_stmt_def total_value_def
  rating_stmt_def rating_of_def virus_stmt_def py_subscript_def
  assign_def if_stmt_def attr_def attr2_def has_attr_def has_attr2_def stat_def bindE_def
  list_of_set_def convertSize_def py_join_def replace_char_def
  get_crossplatfrom_basename_def py_str_def seq_index_def Let_def

lemmas sample_defs =
  sim_lib_def sample_full_def sample_no_stats_def sample_no_type_def sample_properties_def
  sample_stats_def sample_partial_stats_def sample_nan_stats_def all_vendors_def

section \<open>Frame lemmas for the lookup and the pager\<close>

text \<open>
  The comment enricher returns a dictionary of three keys, so merging it changes
  nothing else. The lookup and the pager write a fixed set of keys after
  normalization. The loop of the pager keeps a property of the records gathered so
  far; it is proved for the runs that return, by the induction rule of the loop.
\<close>

lemma comments_dom:
  "k \<noteq> ''comments'' \<Longrightarrow> k \<noteq> ''commenter'' \<Longrightarrow> k \<noteq> ''tags'' \<Longrightarrow>
   fst (searchVirustotalComments L net h tr) k = None"
  by (auto simp: searchVirustotalComments_def comment_defaults_def Let_def
        split: prod.splits outcome.splits sum.splits)

lemma dedup_tags_result:
  assumes "dedup_tags L i = Inr i'"
  obtains t u where "i ''tags'' = Some t" "uniqList L t = Inr u" "i' = i(''tags'' \<mapsto> u)"
  using assms by (auto simp: dedup_tags_def bindE_def split: option.splits sum.splits)

lemma map_add_comments:
  assumes "k \<noteq> ''comments''" "k \<noteq> ''commenter''" "k \<noteq> ''tags''"
  shows "(info ++ fst (searchVirustotalComments L net h tr)) k = info k"
  using comments_dom [OF assms, of L net h tr] by (simp add: map_add_def)

lemma enrich_frame: "agrees_outside lookup_keys (fst (enrich L net info tr)) info"
proof (cases "info ''sha256''")
  case None
  then show ?thesis by (simp add: enrich_def agrees_outside_def)
next
  case (Some s)
  then have "fst (enrich L net info tr) = info ++ fst (searchVirustotalComments L net s tr)"
    by (simp add: enrich_def split: prod.splits)
  then show ?thesis
    by (simp add: agrees_outside_def lookup_keys_def map_add_comments)
qed

lemma legacy_flags_frame: "agrees_outside lookup_keys (legacy_flags L r info) info"
  by (simp add: legacy_flags_def agrees_outside_def lookup_keys_def Let_def)

lemma agrees_outside_trans:
  "agrees_outside ks a b \<Longrightarrow> agrees_outside ks b c \<Longrightarrow> agrees_outside ks a c"
  by (simp add: agrees_outside_def)

lemma getVTInfo_source:
  assumes "getVTInfo L net h dbg V w q = Some (Inr r, tr)"
  shows "\<exists>resp d tr0. request_loop net (VT_REPORT_URL h) w q [] = Some (resp, d, tr0) \<and>
           (if ok resp
            then \<exists>data. py_getitem d (KStr ''data'') = Inr data \<and>
                   agrees_outside lookup_keys r (processVirustotalSampleInfo L data V)
            else r = getEmptyInfo(''hash'' \<mapsto> PStr h))"
proof -
  obtain resp d tr0 where loop: "request_loop net (VT_REPORT_URL h) w q [] = Some (resp, d, tr0)"
    using assms by (auto simp: getVTInfo_def split: option.splits)
  show ?thesis
  proof (cases "ok resp")
    case False
    then have "r = getEmptyInfo(''hash'' \<mapsto> PStr h)"
      using assms loop by (auto simp: getVTInfo_def split: sum.splits)
    then show ?thesis using loop False by simp
  next
    case True
    then obtain data info tr1 info1
      where g: "py_getitem d (KStr ''data'') = Inr data"
        and e: "enrich L net (processVirustotalSampleInfo L data V) tr0 = (info, tr1)"
        and d: "dedup_tags L (info(''hash'' \<mapsto> PStr h)) = Inr info1"
        and r: "r = legacy_flags L resp info1"
      using assms loop by (auto simp: getVTInfo_def split: sum.splits prod.splits)
    from d obtain u where "info1 = info(''hash'' \<mapsto> PStr h, ''tags'' \<mapsto> u)"
      by (rule dedup_tags_result)
    then have "agrees_outside lookup_keys info1 info"
      by (simp add: agrees_outside_def lookup_keys_def)
    moreover have "agrees_outside lookup_keys info (processVirustotalSampleInfo L data V)"
      using enrich_frame [of L net "processVirustotalSampleInfo L data V" tr0] e by simp
    ultimately have "agrees_outside lookup_keys r (processVirustotalSampleInfo L data V)"
      using r legacy_flags_frame [of L resp info1] by (blast intro: agrees_outside_trans)
    then show ?thesis using loop True g by auto
  qed
qed

lemma getVTInfo_frame:
  assumes "getVTInfo L net h dbg V w q = Some (Inr r, tr)"
  shows "\<exists>i0. (i0 = getEmptyInfo \<or> (\<exists>data. i0 = processVirustotalSampleInfo L data V)) \<and>
              agrees_outside lookup_keys r i0"
proof -
  obtain resp d where s: "if ok resp
      then \<exists>data. py_getitem d (KStr ''data'') = Inr data \<and>
             agrees_outside lookup_keys r (processVirustotalSampleInfo L data V)
      else r = getEmptyInfo(''hash'' \<mapsto> PStr h)"
    using getVTInfo_source [OF assms] by blast
  show ?thesis
  proof (cases "ok resp")
    case True
    then show ?thesis using s by auto
  next
    case False
    then have "agrees_outside lookup_keys r getEmptyInfo"
      using s by (simp add: agrees_outside_def lookup_keys_def)
    then show ?thesis by blast
  qed
qed

lemma comment_fields_frame:
  "agrees_outside retrohunt_keys (fst (comment_fields L net nc fid i tr)) i"
proof (cases nc)
  case True
  then show ?thesis
    by (simp add: comment_fields_def agrees_outside_def retrohunt_keys_def map_add_def)
next
  case False
  then have "fst (comment_fields L net nc fid i tr) =
               i ++ fst (searchVirustotalComments L net fid tr)"
    by (simp add: comment_fields_def split: prod.splits)
  then show ?thesis
    by (simp add: agrees_outside_def retrohunt_keys_def map_add_comments)
qed

lemma comment_fields_keeps:
  assumes "k \<noteq> ''comments''" "k \<noteq> ''commenter''" "k \<noteq> ''tags''"
  shows "fst (comment_fields L net nc fid i tr) k = i k"
proof (cases nc)
  case True
  then show ?thesis using assms by (simp add: comment_fields_def map_add_def)
next
  case False
  then have "fst (comment_fields L net nc fid i tr) =
               i ++ fst (searchVirustotalComments L net fid tr)"
    by (simp add: comment_fields_def split: prod.splits)
  then show ?thesis using assms by (simp add: map_add_comments)
qed

lemma comments_trace:
  "\<exists>ext. snd (searchVirustotalComments L net h tr) = tr @ ext"
  by (auto simp: searchVirustotalComments_def http_get_def Let_def
        split: prod.splits outcome.splits sum.splits)

lemma comment_fields_trace: "\<exists>ext. snd (comment_fields L net nc fid i tr) = tr @ ext"
  using comments_trace [of L net fid tr]
  by (auto simp: comment_fields_def split: prod.splits)

lemma retrohunt_entry_trace:
  assumes "retrohunt_entry L net nc V entry tr = (x, tr')"
  shows "\<exists>ext. tr' = tr @ ext"
proof -
  have "tr' = tr \<or> (\<exists>fid i. tr' = snd (comment_fields L net nc fid i tr))"
    using assms
    by (auto simp: retrohunt_entry_def Let_def split: sum.splits if_splits prod.splits;
        metis snd_conv)
  then show ?thesis using comment_fields_trace by fastforce
qed

lemma retrohunt_entry_record:
  assumes "retrohunt_entry L net nc V entry tr = (Inr (Some r), tr')"
  shows "entry_record L V nc entry r"
proof -
  define n where "n = processVirustotalSampleInfo L entry V"
  obtain fid rule i2 where
    fid: "py_getitem entry (KStr ''id'') = Inr fid"
    and rule: "bindE (py_getitem entry (KStr ''context_attributes''))
                 (\<lambda>c. py_getitem c (KStr ''rule_name'')) = Inr rule"
    and c: "comment_fields L net nc fid (n(''hash'' \<mapsto> fid, ''matching_rule'' \<mapsto> rule)) tr = (i2, tr')"
    and d: "dedup_tags L i2 = Inr r"
    using assms
    by (auto simp: retrohunt_entry_def Let_def n_def split: sum.splits if_splits prod.splits)
  from d obtain t u where t: "i2 ''tags'' = Some t" "uniqList L t = Inr u" "r = i2(''tags'' \<mapsto> u)"
    by (rule dedup_tags_result)
  have keys: "i2 ''hash'' = Some fid" "i2 ''matching_rule'' = Some rule"
    using comment_fields_keeps
      [of _ L net nc fid "n(''hash'' \<mapsto> fid, ''matching_rule'' \<mapsto> rule)" tr] c
    by simp_all
  then have ids: "r ''hash'' = Some fid" "r ''matching_rule'' = Some rule"
    using t(3) by simp_all
  have "agrees_outside retrohunt_keys i2 (n(''hash'' \<mapsto> fid, ''matching_rule'' \<mapsto> rule))"
    using comment_fields_frame [of L net nc fid "n(''hash'' \<mapsto> fid, ''matching_rule'' \<mapsto> rule)" tr] c
    by simp
  then have a: "agrees_outside retrohunt_keys r n"
    using t(3) by (simp add: agrees_outside_def retrohunt_keys_def)
  show ?thesis
  proof (cases nc)
    case False
    then show ?thesis using a fid rule ids unfolding entry_record_def n_def by blast
  next
    case True
    then have i2: "i2 = n(''hash'' \<mapsto> fid, ''matching_rule'' \<mapsto> rule) ++
                      map_of [(''comments'', PInt 0), (''commenter'', PList [])]"
      using c by (simp add: comment_fields_def)
    have "r ''comments'' = Some (PInt 0)" "r ''commenter'' = Some (PList [])"
      "n ''tags'' = Some t" "r ''tags'' = Some u"
      using t i2 by (simp_all add: map_add_def)
    then show ?thesis using a t(2) fid rule ids unfolding entry_record_def n_def by blast
  qed
qed

lemma n_requests_append: "n_requests (a @ b) = n_requests a + n_requests b"
  by (simp add: n_requests_def)

lemma fetched_append:
  "fetched net n (tr @ ext) = fetched net n tr @ fetched net (n + n_requests tr) ext"
  by (induction net n tr rule: fetched.induct) (simp_all add: n_requests_def)

lemma fetched_mono: "set (fetched_entries net tr) \<subseteq> set (fetched_entries net (tr @ ext))"
  by (simp add: fetched_entries_def fetched_append)

lemma from_fetched_mono:
  "from_fetched_entry L V nc net tr r \<Longrightarrow> from_fetched_entry L V nc net (tr @ ext) r"
  using fetched_mono [of net tr ext] unfolding from_fetched_entry_def by blast

lemma page_fetched:
  assumes "net (n_requests tr) url = Returns resp" and "ok resp" and "body resp = Inr j"
    and "bindE (py_getitem j (KStr ''data'')) py_iter = Inr page"
  shows "set page \<subseteq> set (fetched_entries net (tr @ [Get url]))"
  using assms by (simp add: fetched_entries_def fetched_append page_entries_def bindE_def)

lemma files_loop_records:
  assumes "files_loop L net nc V page files tr = (Inr out, tr')"
    and "list_all (from_fetched_entry L V nc net tr) files"
    and "set page \<subseteq> set (fetched_entries net tr)"
  shows "(\<exists>ext. tr' = tr @ ext) \<and> list_all (from_fetched_entry L V nc net tr') out"
  using assms
proof (induction page arbitrary: files tr)
  case Nil
  then show ?case by simp
next
  case (Cons e es)
  obtain x tr1 where e: "retrohunt_entry L net nc V e tr = (x, tr1)"
    by (cases "retrohunt_entry L net nc V e tr")
  then obtain ext1 where tr1: "tr1 = tr @ ext1"
    using retrohunt_entry_trace by blast
  have old: "list_all (from_fetched_entry L V nc net tr1) files"
    using Cons.prems(2) from_fetched_mono unfolding tr1 by (auto simp: list_all_iff)
  have rest: "set es \<subseteq> set (fetched_entries net tr1)"
    using Cons.prems(3) fetched_mono [of net tr ext1] unfolding tr1 by auto
  have here: "e \<in> set (fetched_entries net tr1)"
    using Cons.prems(3) fetched_mono [of net tr ext1] unfolding tr1 by auto
  show ?case
  proof (cases x)
    case (Inl err)
    then show ?thesis using Cons.prems(1) e by simp
  next
    case (Inr opt)
    show ?thesis
    proof (cases opt)
      case None
      then have "files_loop L net nc V es files tr1 = (Inr out, tr')"
        using Cons.prems(1) e Inr by simp
      from Cons.IH [OF this old rest] show ?thesis unfolding tr1 by auto
    next
      case (Some r)
      then have "entry_record L V nc e r" using e Inr retrohunt_entry_record by blast
      then have "from_fetched_entry L V nc net tr1 r"
        using here unfolding from_fetched_entry_def by blast
      then have new: "list_all (from_fetched_entry L V nc net tr1) (files @ [r])"
        using old by simp
      have "files_loop L net nc V es (files @ [r]) tr1 = (Inr out, tr')"
        using Cons.prems(1) e Inr Some by simp
      from Cons.IH [OF this new rest] show ?thesis unfolding tr1 by auto
    qed
  qed
qed

lemma pages_loop_records_aux:
  "pages_loop L net nc V url files tr = Some y \<Longrightarrow>
   (\<forall>out tr'. y = (Inr out, tr') \<longrightarrow> list_all (from_fetched_entry L V nc net tr) files \<longrightarrow>
      list_all (from_fetched_entry L V nc net tr') out)"
proof (induction rule: pages_loop.raw_induct [rotated 1, consumes 1])
  case (1 pl L net nc V url files tr y)
  show ?case
  proof (intro allI impI)
    fix out tr'
    assume y: "y = (Inr out, tr')" and inv: "list_all (from_fetched_entry L V nc net tr) files"
    define tr1 where "tr1 = tr @ [Get url]"
    have h: "http_get net url tr = (net (n_requests tr) url, tr1)"
      by (simp add: http_get_def tr1_def)
    have inv1: "list_all (from_fetched_entry L V nc net tr1) files"
      using inv from_fetched_mono unfolding tr1_def by (auto simp: list_all_iff)
    show "list_all (from_fetched_entry L V nc net tr') out"
    proof (cases "net (n_requests tr) url")
      case Raises
      then show ?thesis using 1(2) h y by simp
    next
      case (Returns response)
      show ?thesis
      proof (cases "ok response")
        case False
        then show ?thesis using 1(2) h y inv1 Returns by simp
      next
        case True
        show ?thesis
        proof (cases "body response")
          case (Inl e)
          then show ?thesis using 1(2) h y inv1 Returns True by (simp split: if_splits)
        next
          case (Inr response_json)
          then obtain page files1 tr2 where
            pg: "bindE (py_getitem response_json (KStr ''data'')) py_iter = Inr page"
            and fl: "files_loop L net nc V page files tr1 = (Inr files1, tr2)"
            and rest: "(case bindE (py_getitem response_json (KStr ''links''))
                               (py_contains (KStr ''next'')) of
                          Inl e \<Rightarrow> Some (Inl e, tr2)
                        | Inr b \<Rightarrow>
                            if b then
                              (case bindE (py_getitem response_json (KStr ''links''))
                                      (\<lambda>l. py_getitem l (KStr ''next'')) of
                                 Inl e \<Rightarrow> Some (Inl e, tr2)
                               | Inr nxt \<Rightarrow> pl L net nc V (py_str L nxt) files1 tr2)
                            else Some (Inr files1, tr2)) = Some y"
            using 1(2) h y Returns True
            by (auto split: sum.splits prod.splits)
          have "set page \<subseteq> set (fetched_entries net tr1)"
            unfolding tr1_def using Returns True Inr pg by (rule page_fetched)
          with fl inv1 have inv2: "list_all (from_fetched_entry L V nc net tr2) files1"
            using files_loop_records by blast
          from rest show ?thesis
            using y inv2 1(1) by (auto split: sum.splits if_splits)
        qed
      qed
    qed
  qed
qed

lemma pages_loop_records:
  assumes "pages_loop L net nc V url files tr = Some (Inr out, tr')"
    and "list_all (from_fetched_entry L V nc net tr) files"
  shows "list_all (from_fetched_entry L V nc net tr') out"
  using pages_loop_records_aux [OF assms(1)] assms(2) by blast

lemma mapE_length: "mapE f xs = Inr ys \<Longrightarrow> length ys = length xs"
  by (induction xs arbitrary: ys) (auto simp: bindE_def split: sum.splits)

lemma sorted_by_rule_subset:
  assumes "sorted_by_rule L files = Inr out" and "sorted_rearranges L"
  shows "set out \<subseteq> set files"
proof -
  obtain keys p where k: "mapE (\<lambda>i. case i ''matching_rule'' of None \<Rightarrow> Inl KeyError
                                      | Some k \<Rightarrow> Inr k) files = Inr keys"
    and p: "sorted_perm L keys = Inr p" and out: "out = map (\<lambda>n. files ! n) p"
    using assms(1) by (auto simp: sorted_by_rule_def bindE_def split: sum.splits)
  have len: "length keys = length files" using k by (rule mapE_length)
  have "\<forall>n \<in> set p. n < length keys"
    using assms(2) p unfolding sorted_rearranges_def by blast
  then show ?thesis using out len by auto
qed

lemma retrohunt_records:
  assumes "getRetrohuntResults L net job nc V = Some (Inr rs, tr)"
    and "sorted_rearranges L" and "r \<in> set rs"
  shows "from_fetched_entry L V nc net tr r"
proof -
  obtain files where pl: "pages_loop L net nc V
      (RETROHUNT_URL @ ''/'' @ job @ ''/matching_files?limit=300'') [] [] = Some (Inr files, tr)"
    and s: "sorted_by_rule L files = Inr rs"
    using assms(1) by (auto simp: getRetrohuntResults_def split: option.splits sum.splits)
  have "list_all (from_fetched_entry L V nc net tr) files"
    using pl by (rule pages_loop_records) simp
  moreover have "r \<in> set files"
    using sorted_by_rule_subset [OF s assms(2)] assms(3) by blast
  ultimately show ?thesis by (simp add: list_all_iff)
qed

lemma request_loop_returns:
  assumes "net (n_requests tr) url = Returns r" and "body r = Inr d"
    and "\<not> (status_code r = 429 \<and> q)"
  shows "request_loop net url w q tr = Some (r, d, tr @ [Get url])"
  using assms by (subst request_loop.simps) (auto simp: http_get_def)

lemma request_loop_retry:
  assumes "net (n_requests tr) url = Returns r" and "body r = Inl e"
  shows "request_loop net url w q tr = request_loop net url w q (tr @ [Get url])"
  using assms by (subst request_loop.simps) (simp add: http_get_def)

lemma n_requests_simps:
  "n_requests [] = 0" "n_requests (tr @ [Get u]) = Suc (n_requests tr)"
  "n_requests (tr @ [Sleep n]) = n_requests tr"
  by (simp_all add: n_requests_def)

section \<open>The simulated runs\<close>

text \<open>The simulated runs of the pager and of the lookup return the expected records.\<close>

lemma sim_lib_sorted: "sorted_rearranges sim_lib"
  by (simp add: sorted_rearranges_def sim_lib_def)

lemma retro_file_tags:
  "processVirustotalSampleInfo sim_lib retro_file all_vendors ''tags'' = Some (PList [PStr ''peexe''])"
  by (simp add: model_defs sample_defs retro_file_def)

lemma sample_full_sha256:
  "processVirustotalSampleInfo sim_lib sample_full all_vendors ''sha256'' = Some (PStr ''s256'')"
  by (simp add: model_defs sample_defs)

lemma uniqList_sim:
  "uniqList sim_lib (PList [PStr ''peexe'']) = Inr (PList [PStr ''peexe''])"
  "uniqList sim_lib (PList []) = Inr (PList [])"
  by (simp_all add: uniqList_def list_of_set_def sim_lib_def bindE_def)

lemma retro_file_fields:
  "py_contains (KStr ''error'') retro_file = Inr False"
  "py_getitem retro_file (KStr ''id'') = Inr (PStr ''s256'')"
  "bindE (py_getitem retro_file (KStr ''context_attributes''))
     (\<lambda>c. py_getitem c (KStr ''rule_name'')) = Inr (PStr ''rule_a'')"
  by (simp_all add: retro_file_def bindE_def)

lemma retro_entry_eval:
  "retrohunt_entry sim_lib net True all_vendors retro_file tr =
     (Inr (Some retro_expected), tr)"
proof -
  have "dedup_tags sim_lib
          ((processVirustotalSampleInfo sim_lib retro_file all_vendors)
             (''hash'' \<mapsto> PStr ''s256'', ''matching_rule'' \<mapsto> PStr ''rule_a'') ++
           map_of [(''comments'', PInt 0), (''commenter'', PList [])]) =
        Inr retro_expected"
    by (simp add: dedup_tags_def retro_file_tags uniqList_sim bindE_def map_add_def
          retro_expected_def)
  then show ?thesis
    by (simp add: retrohunt_entry_def retro_file_fields comment_fields_def)
qed

lemma retro_run_eval: "retro_run = Some (Inr [retro_expected], [Get retro_url])"
proof -
  have "pages_loop sim_lib one_page_net True all_vendors retro_url [] [] =
          Some (Inr [retro_expected], [Get retro_url])"
    by (subst pages_loop.simps)
       (simp add: http_get_def one_page_net_def ok_def bindE_def retro_entry_eval)
  moreover have "retro_expected ''matching_rule'' = Some (PStr ''rule_a'')"
    by (simp add: retro_expected_def map_add_def)
  ultimately show ?thesis
    by (simp add: retro_run_def getRetrohuntResults_def retro_url_def sorted_by_rule_def
          bindE_def sim_lib_def)
qed

lemma lookup_run_eval:
  "lookup_run = Some (Inr lookup_expected,
     [Get (VT_REPORT_URL ''abc''), Get (VT_COMMENT_API ''s256'')])"
proof -
  have loop: "request_loop report_net (VT_REPORT_URL ''abc'') 600 False [] =
          Some (\<lparr>status_code = 200, body = Inr (PDict [(KStr ''data'', sample_full)])\<rparr>,
                PDict [(KStr ''data'', sample_full)], [] @ [Get (VT_REPORT_URL ''abc'')])"
    by (rule request_loop_returns) (simp_all add: report_net_def n_requests_def)
  have comments: "searchVirustotalComments sim_lib report_net (PStr ''s256'')
                    [Get (VT_REPORT_URL ''abc'')] =
                  (comment_defaults, [Get (VT_REPORT_URL ''abc''), Get (VT_COMMENT_API ''s256'')])"
    by (simp add: searchVirustotalComments_def http_get_def report_net_def n_requests_def
          ok_def py_str_def)
  have tags: "(processVirustotalSampleInfo sim_lib sample_full all_vendors ++ comment_defaults)
                 ''tags'' = Some (PList [])"
    by (simp add: comment_defaults_def map_add_def)
  have flags: "legacy_flags sim_lib r i = i" for r i
    by (simp add: legacy_flags_def sim_lib_def)
  show ?thesis
    by (simp add: lookup_run_def getVTInfo_def loop ok_def enrich_def sample_full_sha256
          comments dedup_tags_def tags uniqList_sim bindE_def flags lookup_expected_def)
qed

lemma sample_full_rating:
  "processVirustotalSampleInfo sim_lib sample_full all_vendors ''rating'' = Some (PStr ''malicious'')"
  "processVirustotalSampleInfo sim_lib sample_full all_vendors ''positives'' = Some (PInt 13)"
  by (simp_all add: model_defs sample_defs)


lemma one_page_fetched: "fetched_entries one_page_net [Get retro_url] = [retro_file]"
  by (simp add: fetched_entries_def page_entries_def one_page_net_def ok_def bindE_def)

lemma same_rating_agrees:
  assumes "agrees_outside ks r i" and "''rating'' \<notin> set ks" and "''positives'' \<notin> set ks"
  shows "same_rating r i"
  using assms by (simp add: agrees_outside_def same_rating_def)


section \<open>Lemmas on file names\<close>








lemma replace_char_twice: "replace_char a b (replace_char a b s) = replace_char a b s"
  by (induction s) (auto simp: replace_char_def)

lemma basename_backslash:
  "get_crossplatfrom_basename (replace_char (CHR 0x5C) (CHR ''/'') p) =
     get_crossplatfrom_basename p"
  unfolding get_crossplatfrom_basename_def replace_char_twice ..





section \<open>A payload without attributes\<close>

text \<open>
  Claim C7, as the code has it. A raw sample that is a mapping without the key
  \<^verbatim>\<open>attributes\<close> (the empty mapping, for one) is normalized to the dictionary of
  \<^verbatim>\<open>getEmptyInfo\<close>, which is the defaults of the data model of the specification
  (\<open>documented_defaults\<close>) without the fields \<^verbatim>\<open>comments\<close> and \<^verbatim>\<open>commenter\<close> and with the
  field \<^verbatim>\<open>vt_queried\<close> true. No exception reaches the caller: the result of
  \<^verbatim>\<open>processVirustotalSampleInfo\<close> is a dictionary whatever is raised inside.
\<close>

theorem no_attributes_gives_code_defaults:
  assumes "sample_info = PDict kvs" and "map_of kvs (KStr ''attributes'') = None"
  shows "processVirustotalSampleInfo L sample_info VENDORS =
           (documented_defaults |` (- {''comments'', ''commenter''}))
             (''vt_queried'' \<mapsto> PBool True)"
proof -
  have "processVirustotalSampleInfo L sample_info VENDORS = getEmptyInfo"
    using assms by (simp add: processVirustotalSampleInfo_def map_of_eq_None_iff)
  moreover have "getEmptyInfo k =
      ((documented_defaults |` (- {''comments'', ''commenter''}))
         (''vt_queried'' \<mapsto> PBool True)) k" for k
    by (simp add: getEmptyInfo_def documented_defaults_def restrict_map_def)
  ultimately show ?thesis by (simp add: fun_eq_iff)
qed

theorem no_attributes_gives_code_defaults_witness:
  "map_of [] (KStr ''attributes'') = (None :: pyval option) \<and>
   processVirustotalSampleInfo sim_lib (PDict []) all_vendors =
     (documented_defaults |` (- {''comments'', ''commenter''}))
       (''vt_queried'' \<mapsto> PBool True)"
  using no_attributes_gives_code_defaults [of "PDict []" "[]" sim_lib all_vendors] by simp

text \<open>
  The claim as the specification states it asks for the documented defaults. The
  record of the empty mapping has no field \<^verbatim>\<open>comments\<close> and no field \<^verbatim>\<open>commenter\<close>,
  which the data model defaults to 0 and \<^verbatim>\<open>["-"]\<close>, and it has the field
  \<^verbatim>\<open>vt_queried\<close>, which the data model does not list.
\<close>

theorem no_attributes_differs_from_documented_defaults:
  "processVirustotalSampleInfo sim_lib (PDict []) all_vendors ''comments'' = None \<and>
   documented_defaults ''comments'' = Some (PInt 0) \<and>
   processVirustotalSampleInfo sim_lib (PDict []) all_vendors ''commenter'' = None \<and>
   documented_defaults ''commenter'' = Some (PList [PStr ''-'']) \<and>
   processVirustotalSampleInfo sim_lib (PDict []) all_vendors ''vt_queried'' = Some (PBool True) \<and>
   documented_defaults ''vt_queried'' = None \<and>
   processVirustotalSampleInfo sim_lib (PDict []) all_vendors \<noteq> documented_defaults"
proof -
  have e: "processVirustotalSampleInfo sim_lib (PDict []) all_vendors = getEmptyInfo"
    by (simp add: processVirustotalSampleInfo_def)
  have a: "getEmptyInfo ''comments'' = None" "getEmptyInfo ''commenter'' = None"
    "getEmptyInfo ''vt_queried'' = Some (PBool True)"
    by (simp_all add: getEmptyInfo_def)
  have b: "documented_defaults ''comments'' = Some (PInt 0)"
    "documented_defaults ''commenter'' = Some (PList [PStr ''-''])"
    "documented_defaults ''vt_queried'' = None"
    by (simp_all add: documented_defaults_def)
  have "getEmptyInfo \<noteq> documented_defaults"
  proof
    assume "getEmptyInfo = documented_defaults"
    then have "getEmptyInfo ''comments'' = documented_defaults ''comments''" by simp
    then show False using a(1) b(1) by simp
  qed
  then show ?thesis using e a b by simp
qed

section \<open>A payload without detection statistics\<close>

text \<open>
  Claim C1, as the code has it. When the payload has an \<^verbatim>\<open>attributes\<close> mapping without
  \<^verbatim>\<open>last_analysis_stats\<close>, the statement that reads the statistics raises and the
  record returned is the one built by the statements before it: the fields of the
  statistics and virus-name block keep their defaults (\<open>stats_defaults\<close>), the
  properties extracted earlier are kept.
\<close>

theorem missing_stats_keeps_partial_record:
  assumes "sample_info = PDict skvs"
    and "map_of skvs (KStr ''attributes'') = Some (PDict akvs)"
    and "map_of akvs (KStr ''last_analysis_stats'') = None"
  shows "processVirustotalSampleInfo L sample_info VENDORS =
           fst (run_block (properties_block L sample_info) getEmptyInfo) \<and>
         stats_defaults (processVirustotalSampleInfo L sample_info VENDORS)"
proof -
  have raises: "\<And>i. \<exists>e. positives_stmt L sample_info i = (i, Some e)"
    by (simp add: positives_stmt_def positives_value_def assign_def stat_def attr2_def bindE_def
          attr_dict(1) [OF assms(1,2)] assms(3))
  have "fst (run_block (properties_block L sample_info @
               positives_stmt L sample_info # tl (stats_block L sample_info VENDORS)) getEmptyInfo) =
        fst (run_block (properties_block L sample_info) getEmptyInfo)"
    by (rule run_block_raises [OF raises])
  then have eq: "processVirustotalSampleInfo L sample_info VENDORS =
           fst (run_block (properties_block L sample_info) getEmptyInfo)"
    by (simp add: processVirustotalSampleInfo_def attr_dict(3) [OF assms(1,2)] stats_block_def)
  have "\<And>k. k \<in> set stats_keys \<Longrightarrow>
          fst (run_block (properties_block L sample_info) getEmptyInfo) k = getEmptyInfo k"
  proof -
    fix k assume "k \<in> set stats_keys"
    then have "k \<notin> set properties_keys" by (auto simp: stats_keys_def properties_keys_def)
    then have "keeps k (run_block (properties_block L sample_info))"
      by (intro keeps_run_block keeps_properties_block)
    then show "fst (run_block (properties_block L sample_info) getEmptyInfo) k = getEmptyInfo k"
      by (simp add: keeps_def)
  qed
  then have "stats_defaults (fst (run_block (properties_block L sample_info) getEmptyInfo))"
    by (simp add: stats_defaults_def stats_keys_def getEmptyInfo_def)
  with eq show ?thesis by simp
qed

theorem missing_stats_keeps_partial_record_witness:
  "map_of sample_properties (KStr ''last_analysis_stats'') = None \<and>
   stats_defaults (processVirustotalSampleInfo sim_lib sample_no_stats all_vendors) \<and>
   processVirustotalSampleInfo sim_lib sample_no_stats all_vendors =
     fst (run_block (properties_block sim_lib sample_no_stats) getEmptyInfo)"
proof -
  have a: "map_of sample_properties (KStr ''last_analysis_stats'') = None"
    by (simp add: sample_properties_def)
  have s: "sample_no_stats = PDict [(KStr ''attributes'', PDict sample_properties)]"
    by (simp add: sample_no_stats_def)
  have m: "map_of [(KStr ''attributes'', PDict sample_properties)] (KStr ''attributes'') =
             Some (PDict sample_properties)"
    by simp
  from missing_stats_keeps_partial_record [OF s m a, of sim_lib all_vendors] a
  show ?thesis by blast
qed

text \<open>
  The claim as the specification states it asks for the fully defaulted record. The
  payload \<open>sample_no_stats\<close> has file properties and no statistics; its record has the
  file type of the payload.
\<close>

theorem missing_stats_not_defaulted:
  "map_of sample_properties (KStr ''last_analysis_stats'') = None \<and>
   processVirustotalSampleInfo sim_lib sample_no_stats all_vendors ''filetype'' = Some (PStr ''Win32 EXE'') \<and>
   getEmptyInfo ''filetype'' = Some (PStr ''-'') \<and>
   processVirustotalSampleInfo sim_lib sample_no_stats all_vendors \<noteq> getEmptyInfo"
proof -
  have a: "map_of sample_properties (KStr ''last_analysis_stats'') = None"
    by (simp add: sample_properties_def)
  have b: "processVirustotalSampleInfo sim_lib sample_no_stats all_vendors ''filetype'' = Some (PStr ''Win32 EXE'')"
    by (simp add: model_defs sample_defs)
  have c: "getEmptyInfo ''filetype'' = Some (PStr ''-'')"
    by (simp add: getEmptyInfo_def)
  from b c have "processVirustotalSampleInfo sim_lib sample_no_stats all_vendors \<noteq> getEmptyInfo"
    by auto
  with a b c show ?thesis by simp
qed

section \<open>Optional and required fields\<close>

text \<open>
  Claim C5, as the code has it. The four sub-blocks behind a presence test
  (\<^verbatim>\<open>meaningful_name\<close>, \<^verbatim>\<open>exiftool\<close>, \<^verbatim>\<open>pe_info\<close>, \<^verbatim>\<open>signature_info\<close>) are optional: when
  the key is absent the statement changes nothing and raises nothing, and extraction
  goes on. The fields read without a test (\<open>unguarded_reads\<close>, each with the position
  of its statement) are not: when one is absent, extraction stops at its statement
  and the record is the one built by the statements before it.
\<close>

theorem guarded_fields_optional_unguarded_stop:
  assumes "sample_info = PDict skvs"
    and "map_of skvs (KStr ''attributes'') = Some (PDict akvs)"
  shows "(map_of akvs (KStr ''meaningful_name'') = None \<longrightarrow> meaningful_stmt sample_info i = (i, None)) \<and>
         (map_of akvs (KStr ''exiftool'') = None \<longrightarrow> exiftool_stmt sample_info i = (i, None)) \<and>
         (map_of akvs (KStr ''pe_info'') = None \<longrightarrow> pe_info_stmt sample_info i = (i, None)) \<and>
         (map_of akvs (KStr ''signature_info'') = None \<longrightarrow> signature_stmt sample_info i = (i, None)) \<and>
         (\<forall>(k, n) \<in> set unguarded_reads. map_of akvs (KStr k) = None \<longrightarrow>
            processVirustotalSampleInfo L sample_info VENDORS =
              fst (run_block (take n (properties_block L sample_info)) getEmptyInfo))"
proof -
  have guarded:
    "map_of akvs (KStr ''meaningful_name'') = None \<longrightarrow> meaningful_stmt sample_info i = (i, None)"
    "map_of akvs (KStr ''exiftool'') = None \<longrightarrow> exiftool_stmt sample_info i = (i, None)"
    "map_of akvs (KStr ''pe_info'') = None \<longrightarrow> pe_info_stmt sample_info i = (i, None)"
    "map_of akvs (KStr ''signature_info'') = None \<longrightarrow> signature_stmt sample_info i = (i, None)"
    by (simp_all add: meaningful_stmt_def exiftool_stmt_def pe_info_stmt_def signature_stmt_def
          if_stmt_def attr_dict(2) [OF assms])
  have "processVirustotalSampleInfo L sample_info VENDORS =
          fst (run_block (take n (properties_block L sample_info)) getEmptyInfo)"
    if "(k, n) \<in> set unguarded_reads" and "map_of akvs (KStr k) = None" for k n
  proof -
    have "fst (run_block (properties_block L sample_info @ stats_block L sample_info VENDORS)
                 getEmptyInfo) =
          fst (run_block (take n (properties_block L sample_info)) getEmptyInfo)"
      using unguarded_read_raises [OF assms that] by (intro stops_at) auto
    then show ?thesis
      by (simp add: processVirustotalSampleInfo_def attr_dict(3) [OF assms])
  qed
  with guarded show ?thesis by blast
qed

theorem guarded_fields_optional_unguarded_stop_witness:
  "map_of sample_properties (KStr ''exiftool'') = None \<and>
   exiftool_stmt sample_no_stats getEmptyInfo = (getEmptyInfo, None) \<and>
   (''tags'', 5) \<in> set unguarded_reads \<and>
   map_of [(KStr ''names'', PList [PStr ''a.exe'']), (KStr ''type_description'', PStr ''t'')] (KStr ''tags'') = None \<and>
   processVirustotalSampleInfo sim_lib
     (PDict [(KStr ''attributes'', PDict [(KStr ''names'', PList [PStr ''a.exe'']), (KStr ''type_description'', PStr ''t'')])]) all_vendors =
   fst (run_block (take 5 (properties_block sim_lib
     (PDict [(KStr ''attributes'', PDict [(KStr ''names'', PList [PStr ''a.exe'']), (KStr ''type_description'', PStr ''t'')])]))) getEmptyInfo)"
proof -
  have a: "map_of sample_properties (KStr ''exiftool'') = None"
    by (simp add: sample_properties_def)
  have b: "(''tags'', 5) \<in> set unguarded_reads"
    by (simp add: unguarded_reads_def)
  have c: "map_of [(KStr ''names'', PList [PStr ''a.exe'']), (KStr ''type_description'', PStr ''t'')] (KStr ''tags'') = None"
    by simp
  have d: "exiftool_stmt sample_no_stats getEmptyInfo = (getEmptyInfo, None)"
    using a guarded_fields_optional_unguarded_stop
      [of sample_no_stats "[(KStr ''attributes'', PDict sample_properties)]" sample_properties
        getEmptyInfo sim_lib all_vendors]
    by (simp add: sample_no_stats_def)
  have e: "processVirustotalSampleInfo sim_lib
     (PDict [(KStr ''attributes'', PDict [(KStr ''names'', PList [PStr ''a.exe'']), (KStr ''type_description'', PStr ''t'')])]) all_vendors =
   fst (run_block (take 5 (properties_block sim_lib
     (PDict [(KStr ''attributes'', PDict [(KStr ''names'', PList [PStr ''a.exe'']), (KStr ''type_description'', PStr ''t'')])]))) getEmptyInfo)"
    using b c guarded_fields_optional_unguarded_stop
      [of "PDict [(KStr ''attributes'', PDict [(KStr ''names'', PList [PStr ''a.exe'']), (KStr ''type_description'', PStr ''t'')])]"
          "[(KStr ''attributes'', PDict [(KStr ''names'', PList [PStr ''a.exe'']), (KStr ''type_description'', PStr ''t'')])]"
          "[(KStr ''names'', PList [PStr ''a.exe'']), (KStr ''type_description'', PStr ''t'')]"
          getEmptyInfo sim_lib all_vendors]
    by fastforce
  from a b c d e show ?thesis by simp
qed

text \<open>
  The claim as the specification states it fails on \<open>sample_no_type\<close>, which has names
  and tags and no \<^verbatim>\<open>type_description\<close>: the tags of the payload are not extracted.
\<close>

theorem missing_type_blocks_tags:
  "attr sample_no_type ''type_description'' = Inl KeyError \<and>
   attr sample_no_type ''tags'' = Inr (PList [PStr ''peexe'']) \<and>
   processVirustotalSampleInfo sim_lib sample_no_type all_vendors ''tags'' = Some (PList [])"
  by (simp add: model_defs sample_defs)

section \<open>The quota read on a malformed body\<close>

text \<open>
  Claim C3 says that \<^verbatim>\<open>checkVirustotalQuota\<close> never raises. The code does raise: on
  \<open>malformed_net\<close> the response is ok and its body does not parse, \<^verbatim>\<open>json.loads\<close>
  raises inside the try block, and the handler evaluates the undefined name
  \<^verbatim>\<open>debug\<close>. The NameError reaches the caller.
\<close>

theorem quota_read_raises_on_malformed_body:
  "checkVirustotalQuota malformed_net ''user'' = Inl NameError"
  by (simp add: checkVirustotalQuota_def malformed_net_def http_get_def ok_def bindE_def
        quota_handler_def)

section \<open>Rating and positives\<close>




section \<open>The pager without comment enrichment\<close>

text \<open>
  Claim C4, as the code has it. With \<^verbatim>\<open>no_comments\<close> set, every record the pager
  returns is the record of an entry of a page it fetched: the normalized entry with
  the \<^verbatim>\<open>id\<close> of the entry as hash, its rule name as matching rule, \<^verbatim>\<open>comments\<close> 0,
  \<^verbatim>\<open>commenter\<close> the empty list, and as tags the de-duplicated tags of the normalized
  entry. The pager sorts with a \<^verbatim>\<open>sorted\<close> that rearranges its input.
\<close>

theorem no_comments_fields:
  assumes "getRetrohuntResults L net retrohunt_id True VENDORS = Some (Inr rs, tr)"
    and "sorted_rearranges L" and "r \<in> set rs"
  shows "\<exists>entry \<in> set (fetched_entries net tr). \<exists>h m t u.
           py_getitem entry (KStr ''id'') = Inr h \<and>
           bindE (py_getitem entry (KStr ''context_attributes''))
             (\<lambda>c. py_getitem c (KStr ''rule_name'')) = Inr m \<and>
           processVirustotalSampleInfo L entry VENDORS ''tags'' = Some t \<and>
           uniqList L t = Inr u \<and>
           r = (processVirustotalSampleInfo L entry VENDORS)
                 (''hash'' \<mapsto> h, ''matching_rule'' \<mapsto> m, ''comments'' \<mapsto> PInt 0,
                  ''commenter'' \<mapsto> PList [], ''tags'' \<mapsto> u)"
proof -
  have "from_fetched_entry L VENDORS True net tr r"
    using assms by (rule retrohunt_records)
  then obtain entry where e: "entry \<in> set (fetched_entries net tr)"
    and r: "entry_record L VENDORS True entry r"
    unfolding from_fetched_entry_def by blast
  from r obtain h m t u where
    f: "py_getitem entry (KStr ''id'') = Inr h"
      "bindE (py_getitem entry (KStr ''context_attributes''))
         (\<lambda>c. py_getitem c (KStr ''rule_name'')) = Inr m"
      "processVirustotalSampleInfo L entry VENDORS ''tags'' = Some t"
      "uniqList L t = Inr u"
    and k: "r ''hash'' = Some h" "r ''matching_rule'' = Some m"
      "r ''comments'' = Some (PInt 0)" "r ''commenter'' = Some (PList [])"
      "r ''tags'' = Some u"
    and a: "agrees_outside retrohunt_keys r (processVirustotalSampleInfo L entry VENDORS)"
    unfolding entry_record_def by blast
  have "r k = ((processVirustotalSampleInfo L entry VENDORS)
                 (''hash'' \<mapsto> h, ''matching_rule'' \<mapsto> m, ''comments'' \<mapsto> PInt 0,
                  ''commenter'' \<mapsto> PList [], ''tags'' \<mapsto> u)) k" for k
    using k a by (simp add: agrees_outside_def retrohunt_keys_def)
  then have "r = (processVirustotalSampleInfo L entry VENDORS)
                 (''hash'' \<mapsto> h, ''matching_rule'' \<mapsto> m, ''comments'' \<mapsto> PInt 0,
                  ''commenter'' \<mapsto> PList [], ''tags'' \<mapsto> u)"
    by (simp only: fun_eq_iff) simp
  with e f show ?thesis by blast
qed

theorem no_comments_fields_witness:
  "retro_run = Some (Inr [retro_expected], [Get retro_url]) \<and>
   sorted_rearranges sim_lib \<and>
   fetched_entries one_page_net [Get retro_url] = [retro_file] \<and>
   py_getitem retro_file (KStr ''id'') = Inr (PStr ''s256'') \<and>
   bindE (py_getitem retro_file (KStr ''context_attributes''))
     (\<lambda>c. py_getitem c (KStr ''rule_name'')) = Inr (PStr ''rule_a'') \<and>
   processVirustotalSampleInfo sim_lib retro_file all_vendors ''tags'' =
     Some (PList [PStr ''peexe'']) \<and>
   uniqList sim_lib (PList [PStr ''peexe'']) = Inr (PList [PStr ''peexe'']) \<and>
   retro_expected =
     (processVirustotalSampleInfo sim_lib retro_file all_vendors)
       (''hash'' \<mapsto> PStr ''s256'', ''matching_rule'' \<mapsto> PStr ''rule_a'',
        ''comments'' \<mapsto> PInt 0, ''commenter'' \<mapsto> PList [],
        ''tags'' \<mapsto> PList [PStr ''peexe''])"
proof -
  have "retro_expected \<in> set [retro_expected]" by simp
  from no_comments_fields [OF retro_run_eval [unfolded retro_run_def] sim_lib_sorted this]
  have "retro_expected =
     (processVirustotalSampleInfo sim_lib retro_file all_vendors)
       (''hash'' \<mapsto> PStr ''s256'', ''matching_rule'' \<mapsto> PStr ''rule_a'',
        ''comments'' \<mapsto> PInt 0, ''commenter'' \<mapsto> PList [],
        ''tags'' \<mapsto> PList [PStr ''peexe''])"
    by (auto simp: one_page_fetched retro_file_fields retro_file_tags uniqList_sim)
  then show ?thesis
    using retro_run_eval sim_lib_sorted one_page_fetched retro_file_fields(2,3) retro_file_tags
      uniqList_sim(1)
    by simp
qed

text \<open>
  The claim as the specification states it asks for the commenter list \<^verbatim>\<open>["-"]\<close> and
  for empty tags. On a page with one entry the record has the empty commenter list
  and the tag of the entry.
\<close>

theorem no_comments_commenter_is_empty_list:
  "retro_run = Some (Inr [retro_expected], [Get retro_url]) \<and>
   retro_expected ''commenter'' = Some (PList []) \<and>
   retro_expected ''commenter'' \<noteq> Some (PList [PStr ''-'']) \<and>
   retro_expected ''tags'' = Some (PList [PStr ''peexe'']) \<and>
   retro_expected ''tags'' \<noteq> Some (PList [])"
  using retro_run_eval by (simp add: retro_expected_def map_add_def)

section \<open>A rate-limited lookup without waiting\<close>

text \<open>
  Claim C6, as the code has it. The first response has status 429, its body parses
  as JSON, \<^verbatim>\<open>vtwaitquota\<close> is false, and the test of lines 64 to 66 can be evaluated on
  the parsed body (or \<^verbatim>\<open>debug\<close> is set, and the test is skipped). Then \<^verbatim>\<open>getVTInfo\<close>
  returns after that one request, without a sleep, and the record is the defaulted
  one with the hash of the call: the run is the single event \<open>Get\<close>.
\<close>

theorem rate_limited_single_attempt:
  assumes "net 0 (VT_REPORT_URL hash) = Returns r"
    and "status_code r = 429" and "body r = Inr d"
    and "\<not> vtwaitquota"
    and "debug \<or> not_found_check d = Inr b"
  shows "getVTInfo L net hash debug VENDORS wait vtwaitquota =
           Some (Inr (getEmptyInfo(''hash'' \<mapsto> PStr hash)), [Get (VT_REPORT_URL hash)])"
proof -
  have "request_loop net (VT_REPORT_URL hash) wait vtwaitquota [] =
          Some (r, d, [] @ [Get (VT_REPORT_URL hash)])"
    using assms(1,3,4) by (intro request_loop_returns) (simp_all add: n_requests_simps)
  moreover have "\<not> ok r" using assms(2) by (simp add: ok_def)
  ultimately show ?thesis using assms(5) by (auto simp: getVTInfo_def)
qed

theorem rate_limited_single_attempt_witness:
  "quota_net 0 (VT_REPORT_URL ''abc'') = Returns \<lparr>status_code = 429, body = Inr quota_body\<rparr> \<and>
   not_found_check quota_body = Inr False \<and>
   getVTInfo sim_lib quota_net ''abc'' False all_vendors 600 False =
     Some (Inr (getEmptyInfo(''hash'' \<mapsto> PStr ''abc'')), [Get (VT_REPORT_URL ''abc'')])"
proof -
  have a: "quota_net 0 (VT_REPORT_URL ''abc'') = Returns \<lparr>status_code = 429, body = Inr quota_body\<rparr>"
    by (simp add: quota_net_def)
  have b: "not_found_check quota_body = Inr False"
    by (simp add: not_found_check_def quota_body_def bindE_def)
  have "getVTInfo sim_lib quota_net ''abc'' False all_vendors 600 False =
     Some (Inr (getEmptyInfo(''hash'' \<mapsto> PStr ''abc'')), [Get (VT_REPORT_URL ''abc'')])"
    using b
    by (intro rate_limited_single_attempt
          [where r = "\<lparr>status_code = 429, body = Inr quota_body\<rparr>" and d = quota_body
             and b = False])
       (simp_all add: a)
  with a b show ?thesis by simp
qed

text \<open>
  The claim as the specification states it holds for every response of status 429.
  When the body of such a response does not parse, \<^verbatim>\<open>json.loads\<close> raises before the
  status is looked at and the loop sends the request again: on \<open>html_then_json_net\<close>
  the call makes two requests.
\<close>

theorem rate_limited_unparsable_body_retries:
  "html_then_json_net 0 (VT_REPORT_URL ''abc'') =
     Returns \<lparr>status_code = 429, body = Inl ValueError\<rparr> \<and>
   getVTInfo sim_lib html_then_json_net ''abc'' False all_vendors 600 False =
     Some (Inr (getEmptyInfo(''hash'' \<mapsto> PStr ''abc'')),
           [Get (VT_REPORT_URL ''abc''), Get (VT_REPORT_URL ''abc'')])"
proof -
  have a: "html_then_json_net 0 (VT_REPORT_URL ''abc'') =
             Returns \<lparr>status_code = 429, body = Inl ValueError\<rparr>"
    by (simp add: html_then_json_net_def)
  have "request_loop html_then_json_net (VT_REPORT_URL ''abc'') 600 False [] =
        request_loop html_then_json_net (VT_REPORT_URL ''abc'') 600 False ([] @ [Get (VT_REPORT_URL ''abc'')])"
    by (rule request_loop_retry
          [where e = ValueError and r = "\<lparr>status_code = 429, body = Inl ValueError\<rparr>"])
       (simp_all add: a n_requests_simps)
  also have "\<dots> = Some (\<lparr>status_code = 429, body = Inr quota_body\<rparr>, quota_body,
                        ([] @ [Get (VT_REPORT_URL ''abc'')]) @ [Get (VT_REPORT_URL ''abc'')])"
    by (rule request_loop_returns) (simp_all add: html_then_json_net_def n_requests_def)
  finally have "getVTInfo sim_lib html_then_json_net ''abc'' False all_vendors 600 False =
     Some (Inr (getEmptyInfo(''hash'' \<mapsto> PStr ''abc'')),
           [Get (VT_REPORT_URL ''abc''), Get (VT_REPORT_URL ''abc'')])"
    by (simp add: getVTInfo_def ok_def not_found_check_def quota_body_def bindE_def)
  with a show ?thesis by simp
qed

section \<open>Readable sizes\<close>




section \<open>File names\<close>



section \<open>The field vt\_queried\<close>

text \<open>
  Claim C10. The dictionary of \<^verbatim>\<open>getEmptyInfo\<close> has \<^verbatim>\<open>vt_queried\<close> true, and so has
  every record of the normalizer, of the lookup and of the retrohunt pager: no
  statement writes that key. The pager sorts with a \<^verbatim>\<open>sorted\<close> that rearranges its
  input.
\<close>

theorem vt_queried_always_true:
  "getEmptyInfo ''vt_queried'' = Some (PBool True) \<and>
   processVirustotalSampleInfo L sample_info VENDORS ''vt_queried'' = Some (PBool True) \<and>
   (\<forall>r tr. getVTInfo L net hash debug VENDORS wait vtwaitquota = Some (Inr r, tr) \<longrightarrow>
      r ''vt_queried'' = Some (PBool True)) \<and>
   (\<forall>rs tr. sorted_rearranges L \<longrightarrow>
      getRetrohuntResults L net retrohunt_id no_comments VENDORS = Some (Inr rs, tr) \<longrightarrow>
      (\<forall>r \<in> set rs. r ''vt_queried'' = Some (PBool True)))"
proof -
  have empty: "getEmptyInfo ''vt_queried'' = Some (PBool True)"
    by (simp add: getEmptyInfo_def)
  have norm: "processVirustotalSampleInfo L s VENDORS ''vt_queried'' = Some (PBool True)" for s
    using empty by (simp add: normalizer_frame properties_keys_def stats_keys_def)
  have lookup: "r ''vt_queried'' = Some (PBool True)"
    if h: "getVTInfo L net hash debug VENDORS wait vtwaitquota = Some (Inr r, tr)" for r tr
  proof -
    obtain i0 where "i0 = getEmptyInfo \<or> (\<exists>data. i0 = processVirustotalSampleInfo L data VENDORS)"
      and "agrees_outside lookup_keys r i0"
      using getVTInfo_frame [OF h] by blast
    then show ?thesis
      using empty norm by (auto simp: agrees_outside_def lookup_keys_def)
  qed
  have pager: "r ''vt_queried'' = Some (PBool True)"
    if "sorted_rearranges L"
      and "getRetrohuntResults L net retrohunt_id no_comments VENDORS = Some (Inr rs, tr)"
      and "r \<in> set rs" for rs tr r
  proof -
    have "from_fetched_entry L VENDORS no_comments net tr r"
      using that by (intro retrohunt_records [of L net retrohunt_id no_comments VENDORS rs tr])
    then obtain f where "agrees_outside retrohunt_keys r (processVirustotalSampleInfo L f VENDORS)"
      by (auto simp: from_fetched_entry_def entry_record_def)
    then show ?thesis
      using norm [of f] by (simp add: agrees_outside_def retrohunt_keys_def)
  qed
  from empty norm lookup pager show ?thesis by blast
qed

theorem vt_queried_always_true_witness:
  "lookup_run = Some (Inr lookup_expected,
     [Get (VT_REPORT_URL ''abc''), Get (VT_COMMENT_API ''s256'')]) \<and>
   lookup_expected ''vt_queried'' = Some (PBool True) \<and>
   sorted_rearranges sim_lib \<and>
   retro_run = Some (Inr [retro_expected], [Get retro_url]) \<and>
   retro_expected ''vt_queried'' = Some (PBool True) \<and>
   processVirustotalSampleInfo sim_lib sample_full all_vendors ''vt_queried'' = Some (PBool True)"
proof -
  note t = vt_queried_always_true [of sim_lib sample_full all_vendors]
  have a: "lookup_expected ''vt_queried'' = Some (PBool True)"
    using vt_queried_always_true
      [where L = sim_lib and VENDORS = all_vendors and net = report_net and hash = "''abc''"
         and debug = False and wait = 600 and vtwaitquota = False]
      lookup_run_eval
    by (simp add: lookup_run_def)
  have b: "retro_expected ''vt_queried'' = Some (PBool True)"
    using vt_queried_always_true
      [where L = sim_lib and VENDORS = all_vendors and net = one_page_net
         and retrohunt_id = "''job''" and no_comments = True]
      retro_run_eval sim_lib_sorted
    by (simp add: retro_run_def)
  have c: "processVirustotalSampleInfo sim_lib sample_full all_vendors ''vt_queried'' = Some (PBool True)"
    using t by blast
  from a b c lookup_run_eval retro_run_eval sim_lib_sorted show ?thesis by simp
qed

end
